theory Spec2Isabelle
  imports Complex_Main "HOL-Library.Sublist" "HOL-Library.AList" "HOL-Library.Log_Nat"
    "HOL-Library.Signed_Division"
begin

section \<open>Python strings\<close>

text \<open>
  Strings are lists of \<^typ>\<open>char\<close> (bytes). The scripts only ever compare against ASCII
  literals, so the ASCII fragment of \<open>str.strip\<close>, \<open>str.lower\<close>, \<open>\d\<close>
  and \<open>int\<close> is what is modelled; characters beyond ASCII are left alone by
  \<open>lower\<close> and are neither white space nor digits here. The interpreter converts
  between \<open>str\<close> and \<open>int\<close> only up to \<open>sys.get_int_max_str_digits()\<close>
  digits, 4300 unless it is started with another setting, and raises \<open>ValueError\<close>
  beyond: \<open>int\<close> of a literal with more digits (leading zeros count; the sign, the
  white space around and the underscores do not) and \<open>str\<close> of an integer with more
  digits both fail.
\<close>

datatype error =
    ValueError          \<comment> \<open>\<open>int\<close> of a malformed or too long literal, \<open>str\<close> of
                            too long an integer, unpacking of the wrong length\<close>
  | OverflowError       \<comment> \<open>int too large to convert to float\<close>
  | ParseError          \<comment> \<open>\<open>ET.fromstring\<close> on a malformed document\<close>
  | CalledProcessError  \<comment> \<open>\<open>subprocess.check_output\<close> on a non-zero exit status\<close>
  | OSError             \<comment> \<open>the process or the file could not be opened or decoded\<close>
  | IndexError          \<comment> \<open>a list index out of range\<close>

fun py_in :: "'a list \<Rightarrow> 'a list \<Rightarrow> bool" where
  \<comment> \<open>\<open>sub in s\<close>: \<open>sub\<close> occurs in \<open>s\<close> as a contiguous run\<close>
  "py_in sub [] = (sub = [])"
| "py_in sub (c # cs) = (prefix sub (c # cs) \<or> py_in sub cs)"

definition ws_char :: "char \<Rightarrow> bool" where
  "ws_char c = (c \<in> set [CHR '' '', CHR 0x09, CHR 0x0A, CHR 0x0B, CHR 0x0C, CHR 0x0D,
                          CHR 0x1C, CHR 0x1D, CHR 0x1E, CHR 0x1F])"

definition strip :: "string \<Rightarrow> string" where
  "strip s = rev (dropWhile ws_char (rev (dropWhile ws_char s)))"

definition lower_char :: "char \<Rightarrow> char" where
  "lower_char c =
     (case map_of (zip ''ABCDEFGHIJKLMNOPQRSTUVWXYZ'' ''abcdefghijklmnopqrstuvwxyz'') c of
        None \<Rightarrow> c | Some d \<Rightarrow> d)"

definition lower :: "string \<Rightarrow> string" where
  "lower s = map lower_char s"

definition is_digit :: "char \<Rightarrow> bool" where
  "is_digit c = (c \<in> set ''0123456789'')"

definition digit_val :: "char \<Rightarrow> nat" where
  "digit_val c = (case map_of (zip ''0123456789'' [0, 1, 2, 3, 4, 5, 6, 7, 8, 9]) c of None \<Rightarrow> 0 | Some d \<Rightarrow> d)"

definition nat_of_digits :: "string \<Rightarrow> nat" where
  "nat_of_digits s = foldl (\<lambda>a c. 10 * a + digit_val c) 0 s"

fun split_on :: "char \<Rightarrow> string \<Rightarrow> string list" where
  \<comment> \<open>\<open>s.split(c)\<close> for a one-character separator\<close>
  "split_on c [] = [[]]"
| "split_on c (x # xs) =
     (if x = c then [] # split_on c xs
      else (case split_on c xs of [] \<Rightarrow> [[x]] | p # ps \<Rightarrow> (x # p) # ps))"

definition max_str_digits :: nat where
  \<comment> \<open>\<open>sys.get_int_max_str_digits()\<close>\<close>
  "max_str_digits = 4300"

definition py_int :: "string \<Rightarrow> error + int" where
  \<comment> \<open>\<open>int(s)\<close>: white space around, an optional sign, digits with single underscores
      between, and no more than \<open>max_str_digits\<close> digits in all\<close>
  "py_int s =
     (let t = strip s;
          (neg, body) = (case t of
                           [] \<Rightarrow> (False, t)
                         | c # r \<Rightarrow> if c = CHR ''-'' then (True, r)
                                    else if c = CHR ''+'' then (False, r) else (False, t));
          groups = split_on CHR ''_'' body
      in if list_all (\<lambda>g. g \<noteq> [] \<and> list_all is_digit g) groups
           \<and> length (concat groups) \<le> max_str_digits
         then Inr (if neg then - int (nat_of_digits (concat groups))
                   else int (nat_of_digits (concat groups)))
         else Inl ValueError)"

definition ebind :: "error + 'a \<Rightarrow> ('a \<Rightarrow> error + 'b) \<Rightarrow> error + 'b" where
  \<comment> \<open>sequencing: an exception raised by the first step skips the rest\<close>
  "ebind m f = (case m of Inl e \<Rightarrow> Inl e | Inr x \<Rightarrow> f x)"

section \<open>UI snapshots and the coordinate map\<close>

text \<open>
  An element of the UI dump is its attribute dictionary (\<open>node.attrib\<close>). The XML parser
  is a library: \<open>fromstring\<close> stands for \<open>ET.fromstring\<close> followed by
  \<open>tree.iter("node")\<close> and yields the \<open>node\<close> elements in document order, or
  \<open>None\<close> when the parser raises. A dictionary is an association list in insertion
  order with unique keys, as a Python \<open>dict\<close> is.
\<close>

type_synonym element = "(string \<times> string) list"
type_synonym xml_parser = "string \<Rightarrow> element list option"
type_synonym coords = "(string \<times> (int \<times> int)) list"

definition attrib_get :: "element \<Rightarrow> string \<Rightarrow> string \<Rightarrow> string" where
  "attrib_get node k d = (case map_of node k of None \<Rightarrow> d | Some v \<Rightarrow> v)"

definition dict_set :: "string \<Rightarrow> 'v \<Rightarrow> (string \<times> 'v) list \<Rightarrow> (string \<times> 'v) list" where
  \<comment> \<open>\<open>d[k] = v\<close>: an existing key keeps its place, a new one goes last\<close>
  "dict_set k v d = AList.update k v d"

definition dict_keys :: "(string \<times> 'v) list \<Rightarrow> string list" where
  "dict_keys d = map fst d"

definition dial_chars :: string where
  "dial_chars = ''0123456789*#''"

subsection \<open>The two regular expressions over bounds and names\<close>

definition match_bounds_at :: "string \<Rightarrow> ((string \<times> string) \<times> string) option" where
  \<comment> \<open>\<open>\[(\d+),(\d+)\]\<close> at the head of the string: the two groups and what follows the match\<close>
  "match_bounds_at s =
     (case s of
        [] \<Rightarrow> None
      | c # r1 \<Rightarrow>
          if c \<noteq> CHR ''['' then None
          else let x = takeWhile is_digit r1; r2 = dropWhile is_digit r1 in
            if x = [] then None
            else (case r2 of
                [] \<Rightarrow> None
              | c2 # r3 \<Rightarrow>
                  if c2 \<noteq> CHR '','' then None
                  else let y = takeWhile is_digit r3; r4 = dropWhile is_digit r3 in
                    if y = [] then None
                    else (case r4 of
                        [] \<Rightarrow> None
                      | c3 # r5 \<Rightarrow> if c3 = CHR '']'' then Some ((x, y), r5) else None)))"

function re_findall_bounds :: "string \<Rightarrow> (string \<times> string) list" where
  \<comment> \<open>\<open>re.findall(r"\[(\d+),(\d+)\]", s)\<close>: the matches from left to right, not overlapping\<close>
  "re_findall_bounds [] = []"
| "re_findall_bounds (c # cs) =
     (case match_bounds_at (c # cs) of
        None \<Rightarrow> re_findall_bounds cs
      | Some (g, rest) \<Rightarrow> g # re_findall_bounds rest)"
  by pat_completeness auto
termination
proof (relation "measure length")
  fix c :: char and cs :: string and x2 :: "(string \<times> string) \<times> string"
    and g :: "string \<times> string" and rest :: string
  assume m: "match_bounds_at (c # cs) = Some x2" and x2: "(g, rest) = x2"
  have dw: "length (dropWhile is_digit xs) \<le> length xs" for xs
    by (rule length_dropWhile_le)
  from m x2 obtain c2 r3 where r2: "dropWhile is_digit cs = c2 # r3"
    by (auto simp: match_bounds_at_def Let_def split: if_splits list.splits)
  from m x2 r2 obtain c3 where r4: "dropWhile is_digit r3 = c3 # rest"
    by (auto simp: match_bounds_at_def Let_def split: if_splits list.splits)
  have "length rest < length r3" using dw [of r3] r4 by simp
  also have "length r3 < length cs" using dw [of cs] r2 by simp
  finally show "(rest, c # cs) \<in> measure length" by simp
qed simp_all

definition digit_names :: "string list" where
  "digit_names = [''zero'', ''one'', ''two'', ''three'', ''four'', ''five'', ''six'', ''seven'',
                  ''eight'', ''nine'', ''star'', ''pound'', ''hash'', ''call'']"

fun re_search_names :: "string \<Rightarrow> string option" where
  \<comment> \<open>\<open>re.search\<close> of the alternation: leftmost position, first alternative that fits there\<close>
  "re_search_names [] = None"
| "re_search_names (c # cs) =
     (case find (\<lambda>w. prefix w (c # cs)) digit_names of
        Some w \<Rightarrow> Some w
      | None \<Rightarrow> re_search_names cs)"

definition name_mapping :: "(string \<times> string) list" where
  "name_mapping = [(''zero'', ''0''), (''one'', ''1''), (''two'', ''2''), (''three'', ''3''),
     (''four'', ''4''), (''five'', ''5''), (''six'', ''6''), (''seven'', ''7''), (''eight'', ''8''),
     (''nine'', ''9''), (''star'', ''*''), (''pound'', ''#''), (''hash'', ''#''), (''call'', ''CALL'')]"

subsection \<open>\<open>parse_coords_from_ui\<close> (the polling script)\<close>

definition node_key :: "element \<Rightarrow> string option" where
  \<comment> \<open>the value of \<open>key\<close> after the classification of one node\<close>
  "node_key node =
     (let text = strip (attrib_get node ''text'' []);
          desc = strip (attrib_get node ''content-desc'' []);
          resid = strip (attrib_get node ''resource-id'' [])
      in if text \<noteq> [] \<and> py_in text dial_chars then Some text
         else (case find (\<lambda>ch. py_in [ch] resid \<or> py_in [ch] desc) dial_chars of
                 Some ch \<Rightarrow> Some [ch]
               | None \<Rightarrow>
                  (case re_search_names (lower (resid @ '' '' @ desc)) of
                     None \<Rightarrow> None
                   | Some name \<Rightarrow> map_of name_mapping name)))"

definition center :: "(string \<times> string) list \<Rightarrow> error + (int \<times> int)" where
  \<comment> \<open>\<open>(x1,y1),(x2,y2) = m\<close> and the two midpoints by floor division\<close>
  "center m =
     (case m of
        [(x1, y1), (x2, y2)] \<Rightarrow>
          ebind (py_int x1) (\<lambda>a1. ebind (py_int x2) (\<lambda>a2.
          ebind (py_int y1) (\<lambda>b1. ebind (py_int y2) (\<lambda>b2.
            Inr ((a1 + a2) div 2, (b1 + b2) div 2)))))
      | _ \<Rightarrow> Inl ValueError)"

definition parse_node :: "coords \<Rightarrow> element \<Rightarrow> error + coords" where
  \<comment> \<open>one turn of the loop over the nodes\<close>
  "parse_node coords node =
     (let bounds = attrib_get node ''bounds'' [] in
      case node_key node of
        None \<Rightarrow> Inr coords
      | Some key \<Rightarrow>
          if key \<noteq> [] \<and> bounds \<noteq> [] then
            (let m = re_findall_bounds bounds in
             if length m = 2 then ebind (center m) (\<lambda>p. Inr (dict_set key p coords))
             else Inr coords)
          else Inr coords)"

fun parse_nodes :: "coords \<Rightarrow> element list \<Rightarrow> error + coords" where
  "parse_nodes coords [] = Inr coords"
| "parse_nodes coords (node # nodes) =
     ebind (parse_node coords node) (\<lambda>coords'. parse_nodes coords' nodes)"

definition parse_coords_from_ui :: "xml_parser \<Rightarrow> string \<Rightarrow> error + coords" where
  "parse_coords_from_ui fromstring xml_string =
     (case fromstring xml_string of
        None \<Rightarrow> Inr []
      | Some nodes \<Rightarrow> parse_nodes [] nodes)"


section \<open>Floating point: \<open>int(n * c)\<close> for a double constant \<open>c\<close>\<close>

text \<open>
  The fractions of the screen are computed in binary floating point: \<open>int(h*0.45)\<close>
  converts \<open>h\<close> to a double (rounding to 53 significant bits, ties to even, and raising
  when the result is not finite), multiplies by the double nearest to the literal (one more
  rounding) and truncates. All values are non-negative and, when not zero, at least
  \<open>0.12\<close>, so no subnormal occurs and rounding acts on the integer numerator alone. A
  double constant is kept as its exact value \<open>mantissa / 2 ^ exponent\<close>.
\<close>

definition round_sig :: "int \<Rightarrow> int" where
  \<comment> \<open>a non-negative integer rounded to 53 significant bits, ties to even\<close>
  "round_sig n =
     (let l = bitlen n in
      if l \<le> 53 then n
      else let s = nat (l - 53); q = n div 2 ^ s; r = n mod 2 ^ s in
        (if 2 ^ s < 2 * r \<or> (2 * r = 2 ^ s \<and> odd q) then q + 1 else q) * 2 ^ s)"

type_synonym dbl = "int \<times> nat"

definition c_045 :: dbl where "c_045 = (8106479329266893, 54)"
definition c_085 :: dbl where "c_085 = (7656119366529843, 53)"
definition c_012 :: dbl where "c_012 = (1080863910568919, 53)"
definition c_088 :: dbl where "c_088 = (7926335344172073, 53)"
definition c_093 :: dbl where "c_093 = (8376695306909123, 53)"
definition c_08 :: dbl where "c_08 = (3602879701896397, 52)"
definition c_025 :: dbl where "c_025 = (1, 2)"
definition c_078 :: dbl where "c_078 = (3512807709348987, 52)"

definition int_mul :: "int \<Rightarrow> dbl \<Rightarrow> error + int" where
  \<comment> \<open>\<open>int(n * c)\<close> for an integer \<open>n \<ge> 0\<close>\<close>
  "int_mul n c =
     (let f = round_sig n in
      if 2 ^ 1024 \<le> f then Inl OverflowError
      else Inr (round_sig (f * fst c) div 2 ^ snd c))"

section \<open>The screen size\<close>

definition match_size_at :: "string \<Rightarrow> (string \<times> string) option" where
  \<comment> \<open>\<open>(\d+)x(\d+)\<close> at the head of the string\<close>
  "match_size_at s =
     (let a = takeWhile is_digit s in
      if a = [] then None
      else (case dropWhile is_digit s of
          [] \<Rightarrow> None
        | c # r \<Rightarrow>
            if c \<noteq> CHR ''x'' then None
            else let b = takeWhile is_digit r in
              if b = [] then None else Some (a, b)))"

fun re_search_size :: "string \<Rightarrow> (string \<times> string) option" where
  \<comment> \<open>\<open>re.search(r"(\d+)x(\d+)", s)\<close>: the leftmost match\<close>
  "re_search_size [] = None"
| "re_search_size (c # cs) =
     (case match_size_at (c # cs) of
        Some g \<Rightarrow> Some g
      | None \<Rightarrow> re_search_size cs)"

definition wm_size :: "string \<Rightarrow> error + (int \<times> int) option" where
  \<comment> \<open>\<open>m = re.search(...)\<close> and, when it matched, \<open>w, h = map(int, m.groups())\<close>\<close>
  "wm_size out =
     (case re_search_size out of
        None \<Rightarrow> Inr None
      | Some (a, b) \<Rightarrow>
          ebind (py_int a) (\<lambda>w. ebind (py_int b) (\<lambda>h. Inr (Some (w, h)))))"

section \<open>Commands sent to a device\<close>

text \<open>
  A session is observed through the commands it sends over adb and the warnings and errors
  it prints, in order. What the device answers to a query is an input of the model.
  \<open>adb_cmd(..., capture=True)\<close> is \<open>subprocess.check_output\<close>: it raises
  \<open>CalledProcessError\<close> when adb exits with a non-zero status, so the answer has type
  \<^typ>\<open>error + string\<close>. \<open>adb_cmd(..., capture=False)\<close> is
  \<open>subprocess.call\<close> through a shell: the exit status is dropped and nothing is raised.
  An event records the integers a command is sent with, not the text they are formatted
  into. Locks and sleeps are not modelled: a session is one sequential run.
\<close>

datatype event =
    WaitForDevice            \<comment> \<open>\<open>wait-for-device\<close>\<close>
  | DumpsysPower             \<comment> \<open>\<open>shell dumpsys power\<close>\<close>
  | KeyEvent nat             \<comment> \<open>\<open>shell input keyevent n\<close>\<close>
  | WmSize                   \<comment> \<open>\<open>shell wm size\<close>\<close>
  | Swipe "int list"         \<comment> \<open>\<open>shell input swipe ...\<close>\<close>
  | UiDump                   \<comment> \<open>\<open>shell uiautomator dump /sdcard/dialer.xml\<close>\<close>
  | PullDump                 \<comment> \<open>\<open>pull /sdcard/dialer.xml ...\<close>\<close>
  | StartDial                \<comment> \<open>\<open>shell am start -a android.intent.action.DIAL\<close>\<close>
  | Tap int int              \<comment> \<open>\<open>shell input tap x y\<close>\<close>
  | Pidof                    \<comment> \<open>\<open>shell pidof APP_PACKAGE\<close>\<close>
  | WindowFocus              \<comment> \<open>\<open>shell dumpsys window windows | findstr mCurrentFocus\<close>\<close>
  | SecretCode               \<comment> \<open>\<open>shell am broadcast -a ...SECRET_CODE -d android_secret_code://4321\<close>\<close>
  | Warn_missing char        \<comment> \<open>the print for a character that has no coordinate\<close>
  | Print_error error        \<comment> \<open>the print of an \<open>except\<close> branch\<close>

type_synonym 'a io = "event list \<times> (error + 'a)"

definition io_ret :: "'a \<Rightarrow> 'a io" where
  "io_ret x = ([], Inr x)"

definition io_bind :: "'a io \<Rightarrow> ('a \<Rightarrow> 'b io) \<Rightarrow> 'b io" where
  \<comment> \<open>one statement after the other; an exception skips what follows\<close>
  "io_bind m f =
     (case m of
        (ev, Inl e) \<Rightarrow> (ev, Inl e)
      | (ev, Inr x) \<Rightarrow> (case f x of (ev', r) \<Rightarrow> (ev @ ev', r)))"

definition io_catch :: "'a io \<Rightarrow> (error \<Rightarrow> 'a io) \<Rightarrow> 'a io" where
  \<comment> \<open>\<open>try: m except Exception as e: h(e)\<close>\<close>
  "io_catch m h =
     (case m of
        (ev, Inl e) \<Rightarrow> (case h e of (ev', r) \<Rightarrow> (ev @ ev', r))
      | (ev, Inr x) \<Rightarrow> (ev, Inr x))"

definition lift :: "error + 'a \<Rightarrow> 'a io" where
  "lift r = ([], r)"

definition emit :: "event \<Rightarrow> unit io" where
  "emit e = ([e], Inr ())"

definition adb_capture :: "event \<Rightarrow> error + string \<Rightarrow> string io" where
  "adb_capture cmd reply = ([cmd], reply)"

definition adb_run :: "event \<Rightarrow> unit io" where
  "adb_run cmd = emit cmd"

definition tap :: "int \<Rightarrow> int \<Rightarrow> unit io" where
  "tap x y = adb_run (Tap x y)"

section \<open>The fallback grid\<close>

definition py_index :: "'a list \<Rightarrow> nat \<Rightarrow> error + 'a" where
  "py_index xs i = (if i < length xs then Inr (xs ! i) else Inl IndexError)"

definition grid_keys :: "string list" where
  \<comment> \<open>\<open>mapping\<close>: the twelve one-character keys in row-major order\<close>
  "grid_keys = map (\<lambda>c. [c]) ''123456789*0#''"

fun fill_cols :: "int \<Rightarrow> coords \<times> nat \<Rightarrow> int list \<Rightarrow> error + coords \<times> nat" where
  \<comment> \<open>the inner loop: \<open>coords[mapping[i]] = (c, r); i += 1\<close>\<close>
  "fill_cols r (coords, i) [] = Inr (coords, i)"
| "fill_cols r (coords, i) (c # cs) =
     ebind (py_index grid_keys i) (\<lambda>k. fill_cols r (dict_set k (c, r) coords, i + 1) cs)"

fun fill_rows :: "int list \<Rightarrow> coords \<times> nat \<Rightarrow> int list \<Rightarrow> error + coords \<times> nat" where
  \<comment> \<open>the outer loop over the rows\<close>
  "fill_rows cols acc [] = Inr acc"
| "fill_rows cols acc (r # rs) = ebind (fill_cols r acc cols) (\<lambda>acc'. fill_rows cols acc' rs)"

definition grid :: "int \<Rightarrow> int \<Rightarrow> error + coords" where
  \<comment> \<open>\<open>fallback_grid\<close> once \<open>w\<close> and \<open>h\<close> are known\<close>
  "grid w h =
     ebind (int_mul h c_045) (\<lambda>top.
     ebind (int_mul h c_085) (\<lambda>bottom.
     ebind (int_mul w c_012) (\<lambda>left.
     ebind (int_mul w c_088) (\<lambda>right.
       let cols = [left, w div 2, right];
           rows = map (\<lambda>i. top + (bottom - top) * i div 4) [0, 1, 2, 3]
       in ebind (fill_rows cols ([], 0) rows) (\<lambda>(coords, i).
          ebind (int_mul h c_093) (\<lambda>cy.
            Inr (dict_set ''CALL'' (w div 2, cy) coords)))))))"

definition fallback_grid :: "error + string \<Rightarrow> coords io" where
  \<comment> \<open>the argument is the reply of the device to \<open>shell wm size\<close>\<close>
  "fallback_grid size_reply =
     io_bind (adb_capture WmSize size_reply) (\<lambda>out.
     io_bind (lift (wm_size out)) (\<lambda>m.
       case m of
         None \<Rightarrow> lift (grid 720 1612)
       | Some (w, h) \<Rightarrow> lift (grid w h)))"

section \<open>The cache file\<close>

text \<open>
  The cache file is its text, \<open>None\<close> when the file does not exist. \<open>disk_ok\<close> says
  whether opening the file for writing succeeds. Opening it for writing empties it; the
  entries are then formatted and written one by one, so that an entry that cannot be
  formatted leaves the file with the entries before it.
\<close>

definition digit_char :: "nat \<Rightarrow> char" where
  "digit_char d = ''0123456789'' ! d"

fun str_nat :: "nat \<Rightarrow> string" where
  "str_nat n = (if n < 10 then [digit_char n] else str_nat (n div 10) @ [digit_char (n mod 10)])"

definition decimal :: "int \<Rightarrow> string" where
  \<comment> \<open>the decimal numeral of an integer\<close>
  "decimal i = (if i < 0 then CHR ''-'' # str_nat (nat (- i)) else str_nat (nat i))"

definition py_str :: "int \<Rightarrow> error + string" where
  \<comment> \<open>\<open>str(i)\<close>, also what an f-string writes for an integer: the numeral, unless it
      has more than \<open>max_str_digits\<close> digits\<close>
  "py_str i =
     (if length (str_nat (nat \<bar>i\<bar>)) \<le> max_str_digits then Inr (decimal i) else Inl ValueError)"

definition cache_line :: "string \<times> (int \<times> int) \<Rightarrow> error + string" where
  \<comment> \<open>\<open>f"{k}:{v[0]},{v[1]}\n"\<close>\<close>
  "cache_line kv =
     ebind (py_str (fst (snd kv))) (\<lambda>a. ebind (py_str (snd (snd kv))) (\<lambda>b.
       Inr (fst kv @ '':'' @ a @ '','' @ b @ [CHR 0x0A])))"

fun write_entries :: "coords \<Rightarrow> string \<Rightarrow> string \<times> error option" where
  \<comment> \<open>\<open>for k, v in coords.items(): f.write(...)\<close>: the text of the file once it is
      closed, and the exception that ended the loop, if any; the second argument is what has
      been written so far\<close>
  "write_entries [] written = (written, None)"
| "write_entries (kv # rest) written =
     (case cache_line kv of
        Inl e \<Rightarrow> (written, Some e)
      | Inr line \<Rightarrow> write_entries rest (written @ line))"

definition save_coords :: "bool \<Rightarrow> coords \<Rightarrow> string option \<Rightarrow> string option" where
  \<comment> \<open>the polling script: a failure is printed and swallowed\<close>
  "save_coords disk_ok coords file =
     (if disk_ok then Some (fst (write_entries coords [])) else file)"

fun file_lines :: "string \<Rightarrow> string \<Rightarrow> string list" where
  \<comment> \<open>\<open>for line in f\<close> in text mode: a line ends after \<open>\n\<close>, \<open>\r\n\<close> or \<open>\r\<close>,
      each read as \<open>\n\<close>; the first argument is the line read so far\<close>
  "file_lines cur [] = (if cur = [] then [] else [cur])"
| "file_lines cur [c] =
     (if c = CHR 0x0A \<or> c = CHR 0x0D then [cur @ [CHR 0x0A]] else [cur @ [c]])"
| "file_lines cur (c # d # cs) =
     (if c = CHR 0x0A then (cur @ [CHR 0x0A]) # file_lines [] (d # cs)
      else if c = CHR 0x0D then
        (if d = CHR 0x0A then (cur @ [CHR 0x0A]) # file_lines [] cs
         else (cur @ [CHR 0x0A]) # file_lines [] (d # cs))
      else file_lines (cur @ [c]) (d # cs))"

fun load_lines :: "coords \<Rightarrow> string list \<Rightarrow> error + coords" where
  \<comment> \<open>the loop of \<open>load_coords\<close> over the lines\<close>
  "load_lines coords [] = Inr coords"
| "load_lines coords (line # lines) =
     (if py_in '':'' line then
        (case split_on CHR '':'' (strip line) of
           [k, val] \<Rightarrow>
             (case split_on CHR '','' val of
                [a, b] \<Rightarrow>
                  ebind (py_int a) (\<lambda>x. ebind (py_int b) (\<lambda>y.
                    load_lines (dict_set k (x, y) coords) lines))
              | _ \<Rightarrow> Inl ValueError)
         | _ \<Rightarrow> Inl ValueError)
      else load_lines coords lines)"

definition load_coords :: "string option \<Rightarrow> coords option" where
  \<comment> \<open>the polling script: any exception while reading gives \<open>None\<close>\<close>
  "load_coords file =
     (case file of
        None \<Rightarrow> None
      | Some txt \<Rightarrow>
          (case load_lines [] (file_lines [] txt) of
             Inl e \<Rightarrow> None
           | Inr coords \<Rightarrow> Some coords))"


section \<open>The polling script\<close>

record store =
  global_coords :: "coords option"   \<comment> \<open>the global \<open>global_coords\<close>\<close>
  cache_file :: "string option"      \<comment> \<open>the text of \<open>COORDS_CACHE_FILE\<close>\<close>

definition is_screen_on :: "error + string \<Rightarrow> bool io" where
  "is_screen_on power_reply =
     io_catch
       (io_bind (adb_capture DumpsysPower power_reply) (\<lambda>out.
          io_ret (py_in ''state=ON'' out \<or> py_in ''mHoldingDisplaySuspendBlocker=true'' out
                  \<or> py_in ''mWakefulness=Awake'' out)))
       (\<lambda>e. io_ret False)"

definition wake_and_swipe :: "error + string \<Rightarrow> error + string \<Rightarrow> unit io" where
  "wake_and_swipe power_reply size_reply =
     io_bind
       (io_catch
          (io_bind (is_screen_on power_reply) (\<lambda>on.
             if \<not> on then adb_run (KeyEvent 26) else io_ret ()))
          (\<lambda>e. emit (Print_error e)))
       (\<lambda>_.
     io_catch
       (io_bind (adb_capture WmSize size_reply) (\<lambda>out.
        io_bind (lift (wm_size out)) (\<lambda>m.
          case m of
            Some (w, h) \<Rightarrow>
              io_bind (lift (int_mul h c_08)) (\<lambda>sy.
              io_bind (lift (int_mul h c_025)) (\<lambda>ey.
                adb_run (Swipe [w div 2, sy, w div 2, ey, 300])))
          | None \<Rightarrow> adb_run (Swipe [360, 1200, 360, 400, 300]))))
       (\<lambda>e. emit (Print_error e)))"

definition dump_ui :: "string option \<Rightarrow> string option io" where
  \<comment> \<open>the argument is the text of the pulled file, \<open>None\<close> when reading it raises\<close>
  "dump_ui pulled =
     io_bind (adb_run UiDump) (\<lambda>_.
     io_bind (adb_run PullDump) (\<lambda>_.
       case pulled of
         None \<Rightarrow> io_bind (emit (Print_error OSError)) (\<lambda>_. io_ret None)
       | Some data \<Rightarrow> io_ret (Some data)))"

definition et_nodes :: "xml_parser \<Rightarrow> string \<Rightarrow> error + element list" where
  \<comment> \<open>\<open>ET.fromstring(xml)\<close> outside of a \<open>try\<close>\<close>
  "et_nodes fromstring xml =
     (case fromstring xml of None \<Rightarrow> Inl ParseError | Some nodes \<Rightarrow> Inr nodes)"

fun keypad_button :: "element list \<Rightarrow> error + (int \<times> int) option" where
  \<comment> \<open>the loop of \<open>ensure_keypad_open\<close>: the centre of the first keypad button with two
      pairs in its bounds\<close>
  "keypad_button [] = Inr None"
| "keypad_button (node # nodes) =
     (let resid = lower (attrib_get node ''resource-id'' []);
          desc = lower (attrib_get node ''content-desc'' [])
      in if list_ex (\<lambda>k. py_in k resid)
              [''dialpad'', ''keypad'', ''show_dialpad'', ''show_dialer'', ''toggle'']
            \<or> list_ex (\<lambda>k. py_in k desc) [''dialpad'', ''keypad'', ''show dialpad'']
         then (let m = re_findall_bounds (attrib_get node ''bounds'' []) in
               if length m = 2 then ebind (center m) (\<lambda>p. Inr (Some p))
               else keypad_button nodes)
         else keypad_button nodes)"

definition ensure_keypad_open :: "xml_parser \<Rightarrow> string option \<Rightarrow> error + string \<Rightarrow> unit io" where
  "ensure_keypad_open fromstring pulled size_reply =
     io_bind (dump_ui pulled) (\<lambda>xml.
     io_bind
       (case xml of
          None \<Rightarrow> io_ret None
        | Some x \<Rightarrow>
            if x = [] then io_ret None
            else io_bind (lift (et_nodes fromstring x)) (\<lambda>nodes. lift (keypad_button nodes)))
       (\<lambda>found.
          case found of
            Some (cx, cy) \<Rightarrow> tap cx cy
          | None \<Rightarrow>
              io_bind (adb_capture WmSize size_reply) (\<lambda>out.
              io_bind (lift (wm_size out)) (\<lambda>m.
                case m of
                  Some (w, h) \<Rightarrow> io_bind (lift (int_mul h c_078)) (\<lambda>y. tap (w div 2) y)
                | None \<Rightarrow> tap 360 1200))))"

definition call_tokens :: "string list" where
  "call_tokens = [''call'', ''dial'', ''dialer'', ''phone'', ''endcall'']"

fun find_call :: "coords \<Rightarrow> element list \<Rightarrow> error + coords" where
  \<comment> \<open>the loop of the second pass: \<open>CALL\<close> from the first element that names a call button
      and has two pairs in its bounds\<close>
  "find_call coords [] = Inr coords"
| "find_call coords (node # nodes) =
     (let resid = lower (attrib_get node ''resource-id'' []);
          desc = lower (attrib_get node ''content-desc'' []);
          text = lower (attrib_get node ''text'' [])
      in if list_ex (\<lambda>k. py_in k (resid @ desc @ text)) call_tokens
         then (let m = re_findall_bounds (attrib_get node ''bounds'' []) in
               if length m = 2 then ebind (center m) (\<lambda>p. Inr (dict_set ''CALL'' p coords))
               else find_call coords nodes)
         else find_call coords nodes)"

definition second_pass :: "xml_parser \<Rightarrow> string option \<Rightarrow> coords \<Rightarrow> coords" where
  \<comment> \<open>the \<open>try ... except Exception: pass\<close> around the second pass\<close>
  "second_pass fromstring xml coords =
     (case xml of
        None \<Rightarrow> coords
      | Some x \<Rightarrow>
          (case ebind (et_nodes fromstring x) (find_call coords) of
             Inl e \<Rightarrow> coords
           | Inr coords' \<Rightarrow> coords'))"

definition dial_key_count :: "coords \<Rightarrow> nat" where
  \<comment> \<open>\<open>len([k for k in coords.keys() if k in "0123456789*#"])\<close>\<close>
  "dial_key_count coords = length (filter (\<lambda>k. py_in k dial_chars) (dict_keys coords))"

definition has_key :: "string \<Rightarrow> (string \<times> 'v) list \<Rightarrow> bool" where
  \<comment> \<open>\<open>k in d\<close> for a dictionary\<close>
  "has_key k d = (k \<in> set (dict_keys d))"

definition parse_incomplete :: "coords \<Rightarrow> bool" where
  \<comment> \<open>the condition under which \<open>prepare_coords_for_device\<close> takes the grid\<close>
  "parse_incomplete coords = (dial_key_count coords < 10 \<or> \<not> has_key ''CALL'' coords)"

definition truthy :: "coords option \<Rightarrow> bool" where
  \<comment> \<open>\<open>if global_coords:\<close> neither \<open>None\<close> nor the empty dictionary\<close>
  "truthy g = (case g of None \<Rightarrow> False | Some c \<Rightarrow> c \<noteq> [])"

definition attempt_parse :: "xml_parser \<Rightarrow> string option \<Rightarrow> error + coords" where
  \<comment> \<open>\<open>coords = {}\<close> and, if the dump is there and not empty, \<open>parse_coords_from_ui(xml)\<close>\<close>
  "attempt_parse fromstring xml =
     (case xml of
        None \<Rightarrow> Inr []
      | Some x \<Rightarrow> if x = [] then Inr [] else parse_coords_from_ui fromstring x)"

definition publish :: "bool \<Rightarrow> coords \<Rightarrow> store \<Rightarrow> store" where
  \<comment> \<open>\<open>global_coords = coords; save_coords(coords)\<close>\<close>
  "publish ok coords st =
     st\<lparr>global_coords := Some coords, cache_file := save_coords ok coords (cache_file st)\<rparr>"

definition prepare_coords_for_device ::
  "xml_parser \<Rightarrow> string option \<Rightarrow> error + string \<Rightarrow> bool \<Rightarrow> store \<Rightarrow> (coords \<times> store) io" where
  \<comment> \<open>the arguments after the parser: the dump as read, the answer to \<open>wm size\<close>, whether
      the cache file can be written\<close>
  "prepare_coords_for_device fromstring pulled size_reply ok st =
     (if truthy (global_coords st) then io_ret (the (global_coords st), st)
      else
        io_bind (dump_ui pulled) (\<lambda>xml.
        io_bind (lift (attempt_parse fromstring xml)) (\<lambda>coords.
        io_bind
          (if parse_incomplete coords then fallback_grid size_reply
           else if \<not> has_key ''CALL'' coords then io_ret (second_pass fromstring xml coords)
           else io_ret coords)
          (\<lambda>coords'. io_ret (coords', publish ok coords' st)))))"

fun type_code :: "coords \<Rightarrow> string \<Rightarrow> unit io" where
  \<comment> \<open>the loop over the characters of the code\<close>
  "type_code coords [] = io_ret ()"
| "type_code coords (ch # code) =
     io_bind
       (case map_of coords [ch] of
          Some (x, y) \<Rightarrow> tap x y
        | None \<Rightarrow> emit (Warn_missing ch))
       (\<lambda>_. type_code coords code)"

definition press_call_key :: "coords \<Rightarrow> error + string \<Rightarrow> unit io" where
  \<comment> \<open>press CALL: the \<open>CALL\<close> coordinate, or else bottom centre\<close>
  "press_call_key coords size_reply =
     (case map_of coords ''CALL'' of
        Some (cx, cy) \<Rightarrow> tap cx cy
      | None \<Rightarrow>
          io_bind (adb_capture WmSize size_reply) (\<lambda>out.
          io_bind (lift (wm_size out)) (\<lambda>m.
            case m of
              Some (w, h) \<Rightarrow> io_bind (lift (int_mul h c_093)) (\<lambda>y. tap (w div 2) y)
            | None \<Rightarrow> tap 360 1500)))"

record observations =
  power_reply :: "error + string"   \<comment> \<open>the answer to \<open>dumpsys power\<close>\<close>
  size_swipe :: "error + string"    \<comment> \<open>the answer to \<open>wm size\<close> in \<open>wake_and_swipe\<close>\<close>
  dump_keypad :: "string option"    \<comment> \<open>the dump read in \<open>ensure_keypad_open\<close>\<close>
  size_keypad :: "error + string"
  dump_coords :: "string option"    \<comment> \<open>the dump read in \<open>prepare_coords_for_device\<close>\<close>
  size_grid :: "error + string"
  size_call :: "error + string"
  cache_writable :: bool           \<comment> \<open>whether the cache file can be opened for writing\<close>

definition open_dialer :: "xml_parser \<Rightarrow> observations \<Rightarrow> store \<Rightarrow> (coords \<times> store) io" where
  \<comment> \<open>\<open>process_device\<close> up to and including \<open>prepare_coords_for_device\<close>\<close>
  "open_dialer fromstring obs st =
     io_bind (adb_run WaitForDevice) (\<lambda>_.
     io_bind (wake_and_swipe (power_reply obs) (size_swipe obs)) (\<lambda>_.
     io_bind (ensure_keypad_open fromstring (dump_keypad obs) (size_keypad obs)) (\<lambda>_.
     io_bind (adb_run StartDial) (\<lambda>_.
       prepare_coords_for_device fromstring (dump_coords obs) (size_grid obs) (cache_writable obs) st))))"

definition process_device ::
  "xml_parser \<Rightarrow> observations \<Rightarrow> string \<Rightarrow> store \<Rightarrow> event list \<times> store" where
  \<comment> \<open>the third argument is \<open>USSD_CODE\<close>. The globals are assigned at the very end of
      \<open>prepare_coords_for_device\<close>: an exception before that leaves the store as it was,
      one after it leaves the store as assigned.\<close>
  "process_device fromstring obs code st =
     (case open_dialer fromstring obs st of
        (ev, Inl e) \<Rightarrow> (ev @ [Print_error e], st)
      | (ev, Inr (coords, st')) \<Rightarrow>
          (case io_catch
                  (io_bind (type_code coords code) (\<lambda>_. press_call_key coords (size_call obs)))
                  (\<lambda>e. emit (Print_error e)) of
             (ev', r) \<Rightarrow> (ev @ ev', st')))"

section \<open>The single-threaded dialer (\<open>pythonautomationV2.py\<close>)\<close>




definition save_coords_cache :: "bool \<Rightarrow> coords \<Rightarrow> string option \<Rightarrow> error + string option" where
  \<comment> \<open>the file as it is left when the function returns; an exception leaves the function\<close>
  "save_coords_cache disk_ok coords file =
     (if disk_ok then
        (case write_entries coords [] of
           (written, None) \<Rightarrow> Inr (Some written)
         | (written, Some e) \<Rightarrow> Inl e)
      else Inl OSError)"

fun load_cache_lines :: "coords \<Rightarrow> string list \<Rightarrow> error + coords" where
  \<comment> \<open>the loop of \<open>load_coords_cache\<close>: every line is split, with no test for a colon\<close>
  "load_cache_lines coords [] = Inr coords"
| "load_cache_lines coords (line # lines) =
     (case split_on CHR '':'' (strip line) of
        [k, val] \<Rightarrow>
          (case split_on CHR '','' val of
             [a, b] \<Rightarrow>
               ebind (py_int a) (\<lambda>x. ebind (py_int b) (\<lambda>y.
                 load_cache_lines (dict_set k (x, y) coords) lines))
           | _ \<Rightarrow> Inl ValueError)
      | _ \<Rightarrow> Inl ValueError)"

definition load_coords_cache :: "string option \<Rightarrow> error + coords option" where
  "load_coords_cache file =
     (case file of
        None \<Rightarrow> Inr None
      | Some txt \<Rightarrow> ebind (load_cache_lines [] (file_lines [] txt)) (\<lambda>coords. Inr (Some coords)))"




section \<open>The application launcher (\<open>M10AGINGSTART_V2.0.7.py\<close>)\<close>

text \<open>
  Here every command goes through \<open>adb\<close>, which is \<open>subprocess.run\<close> on the bundled
  executable with the output decoded as text: a non-zero exit status raises nothing, but the
  call raises when the executable cannot be run or its output cannot be decoded. The answer
  to each call is an input of type \<^typ>\<open>error + string\<close>. Time is read from the clock
  four times in a session; the readings are inputs, taken as real numbers.
\<close>

definition app_package :: string where
  "app_package = ''com.sprd.validationtools''"

definition recheck_interval :: real where
  "recheck_interval = 30"

definition adb :: "event \<Rightarrow> error + string \<Rightarrow> string io" where
  \<comment> \<open>\<open>return result.stdout.strip()\<close>\<close>
  "adb cmd reply = io_bind (adb_capture cmd reply) (\<lambda>out. io_ret (strip out))"

record launcher_obs =
  power_out :: "error + string"     \<comment> \<open>\<open>dumpsys power\<close>\<close>
  key26_out :: "error + string"
  key82_out :: "error + string"
  swipe_out :: "error + string"
  pidof_out :: "error + string"
  focus1_out :: "error + string"    \<comment> \<open>the first call of \<open>check_foreground\<close> in the session\<close>
  focus2_out :: "error + string"    \<comment> \<open>the second call of \<open>check_foreground\<close>\<close>
  launch1_out :: "error + string"   \<comment> \<open>the first call of \<open>launch_app\<close>\<close>
  launch2_out :: "error + string"   \<comment> \<open>the second call of \<open>launch_app\<close>\<close>
  csv_ok :: bool                    \<comment> \<open>whether the log file can be opened for appending\<close>

record clock =
  t_start :: real    \<comment> \<open>\<open>start_time = time.time()\<close>\<close>
  t_guard :: real    \<comment> \<open>the reading compared with the cooldown\<close>
  t_mark :: real     \<comment> \<open>the reading stored in \<open>processed_sessions\<close>\<close>
  t_end :: real      \<comment> \<open>the reading that gives the duration\<close>
  stamp :: string    \<comment> \<open>\<open>time.strftime(...)\<close>\<close>

datatype csv_row =
    Header
  | Outcome string string real string   \<comment> \<open>device, status, duration, timestamp\<close>

record launcher_state =
  device_last_seen :: "string \<rightharpoonup> real"
  processed_sessions :: "string \<rightharpoonup> real"
  csv_file :: "csv_row list option"     \<comment> \<open>\<open>None\<close>: the log does not exist yet\<close>
  processed_devices :: nat
  total_time :: real

definition m10_is_screen_on :: "error + string \<Rightarrow> bool io" where
  "m10_is_screen_on reply =
     io_bind (adb DumpsysPower reply) (\<lambda>output.
       io_ret (py_in ''state=ON'' output \<or> py_in ''mHoldingDisplaySuspendBlocker=true'' output))"

definition wake_and_unlock :: "launcher_obs \<Rightarrow> unit io" where
  "wake_and_unlock obs =
     io_bind (m10_is_screen_on (power_out obs)) (\<lambda>on.
     io_bind (if \<not> on then io_bind (adb (KeyEvent 26) (key26_out obs)) (\<lambda>_. io_ret ())
              else io_ret ()) (\<lambda>_.
     io_bind (adb (KeyEvent 82) (key82_out obs)) (\<lambda>_.
     io_bind (adb (Swipe [500, 1500, 500, 300]) (swipe_out obs)) (\<lambda>_. io_ret ()))))"

definition is_app_running :: "error + string \<Rightarrow> bool io" where
  \<comment> \<open>\<open>bool(output.strip())\<close>\<close>
  "is_app_running reply = io_bind (adb Pidof reply) (\<lambda>output. io_ret (strip output \<noteq> []))"

definition check_foreground :: "error + string \<Rightarrow> bool io" where
  "check_foreground reply =
     io_bind (adb WindowFocus reply) (\<lambda>output. io_ret (py_in app_package output))"

definition launch_app :: "error + string \<Rightarrow> unit io" where
  "launch_app reply = io_bind (adb SecretCode reply) (\<lambda>_. io_ret ())"

definition session_status :: "launcher_obs \<Rightarrow> string io" where
  \<comment> \<open>\<open>process_device\<close> from \<open>wake_and_unlock\<close> to the assignment of \<open>status\<close>\<close>
  "session_status obs =
     io_bind (wake_and_unlock obs) (\<lambda>_.
     io_bind (is_app_running (pidof_out obs)) (\<lambda>running.
       if running then
         io_bind (check_foreground (focus1_out obs)) (\<lambda>fg.
           if fg then io_ret ''Already Running''
           else
             io_bind (launch_app (launch1_out obs)) (\<lambda>_.
             io_bind (check_foreground (focus2_out obs)) (\<lambda>fg2.
               if fg2 then io_ret ''Brought to Foreground''
               else io_ret ''Foreground Failed'')))
       else
         io_bind (launch_app (launch1_out obs)) (\<lambda>_.
         io_bind (check_foreground (focus1_out obs)) (\<lambda>fg.
           if fg then io_ret ''Launched''
           else
             io_bind (launch_app (launch2_out obs)) (\<lambda>_.
             io_bind (check_foreground (focus2_out obs)) (\<lambda>fg2.
               if fg2 then io_ret ''Launched After Retry''
               else io_ret ''Failed''))))))"

definition log_to_csv ::
  "bool \<Rightarrow> string \<Rightarrow> string \<Rightarrow> real \<Rightarrow> string \<Rightarrow> csv_row list option \<Rightarrow> error + csv_row list option" where
  "log_to_csv ok device status duration ts file =
     (if \<not> ok then Inl OSError
      else (case file of
          None \<Rightarrow> Inr (Some [Header, Outcome device status duration ts])
        | Some rows \<Rightarrow> Inr (Some (rows @ [Outcome device status duration ts]))))"

datatype ending =
    Skipped             \<comment> \<open>the early \<open>return\<close> of the cooldown\<close>
  | Raised error        \<comment> \<open>an exception left the function: the worker thread dies\<close>
  | Logged string       \<comment> \<open>the function ran to its end with this status\<close>

definition in_cooldown :: "launcher_state \<Rightarrow> string \<Rightarrow> real \<Rightarrow> bool" where
  \<comment> \<open>\<open>device in processed_sessions and (time.time() - processed_sessions[device]) < RECHECK_INTERVAL\<close>\<close>
  "in_cooldown st device now =
     (case processed_sessions st device of
        None \<Rightarrow> False
      | Some t \<Rightarrow> now - t < recheck_interval)"

definition run_session ::
  "launcher_obs \<Rightarrow> clock \<Rightarrow> string \<Rightarrow> launcher_state \<Rightarrow> event list \<times> launcher_state \<times> ending" where
  \<comment> \<open>\<open>process_device\<close> after the cooldown test and the assignment to \<open>processed_sessions\<close>\<close>
  "run_session obs clk device st =
     (case session_status obs of
        (ev, Inl e) \<Rightarrow> (ev, st, Raised e)
      | (ev, Inr status) \<Rightarrow>
          (let duration = t_end clk - t_start clk in
           case log_to_csv (csv_ok obs) device status duration (stamp clk) (csv_file st) of
             Inl e \<Rightarrow> (ev, st, Raised e)
           | Inr file \<Rightarrow>
               (ev,
                st\<lparr>csv_file := file,
                   processed_devices := processed_devices st + 1,
                   total_time := total_time st + duration\<rparr>,
                Logged status)))"

definition mark_session :: "clock \<Rightarrow> string \<Rightarrow> launcher_state \<Rightarrow> launcher_state" where
  \<comment> \<open>\<open>processed_sessions[device] = time.time()\<close>\<close>
  "mark_session clk device st =
     st\<lparr>processed_sessions := (processed_sessions st)(device \<mapsto> t_mark clk)\<rparr>"

definition m10_process_device ::
  "launcher_obs \<Rightarrow> clock \<Rightarrow> string \<Rightarrow> launcher_state \<Rightarrow> event list \<times> launcher_state \<times> ending" where
  "m10_process_device obs clk device st =
     (if in_cooldown st device (t_guard clk) then ([], st, Skipped)
      else run_session obs clk device (mark_session clk device st))"





subsection \<open>Poll cycles and workers, interleaved\<close>





subsection \<open>What is read off a session\<close>

definition launches :: "event list \<Rightarrow> nat" where
  \<comment> \<open>the number of calls of \<open>launch_app\<close>\<close>
  "launches ev = length (filter (\<lambda>e. e = SecretCode) ev)"

definition records :: "csv_row list option \<Rightarrow> csv_row list" where
  \<comment> \<open>the outcome records of the log, without the header row\<close>
  "records file = (case file of None \<Rightarrow> [] | Some rows \<Rightarrow> filter (\<lambda>r. r \<noteq> Header) rows)"


definition layout :: "int list \<Rightarrow> int list \<Rightarrow> int \<times> int \<Rightarrow> coords" where
  \<comment> \<open>the twelve keys over the grid in row-major order, then \<open>CALL\<close>\<close>
  "layout cols rows call =
     zip (map (\<lambda>c. [c]) ''123456789*0#'') (concat (map (\<lambda>r. map (\<lambda>c. (c, r)) cols) rows))
     @ [(''CALL'', call)]"

definition screen_of :: "string \<Rightarrow> int \<times> int" where
  \<comment> \<open>the screen size the generator works with: the first \<open>WxH\<close> of the answer, or
      the default\<close>
  "screen_of out =
     (case re_search_size out of
        None \<Rightarrow> (720, 1612)
      | Some (a, b) \<Rightarrow> (int (nat_of_digits a), int (nat_of_digits b)))"

definition inside :: "int \<Rightarrow> int \<Rightarrow> coords \<Rightarrow> bool" where
  \<comment> \<open>every point of the map lies in \<open>[0,w] x [0,h]\<close>\<close>
  "inside w h g = list_all (\<lambda>kv. 0 \<le> fst (snd kv) \<and> fst (snd kv) \<le> w \<and> 0 \<le> snd (snd kv) \<and> snd (snd kv) \<le> h) g"


definition plain :: "string \<Rightarrow> bool" where
  \<comment> \<open>a key that survives the file: no white space and no colon in it\<close>
  "plain s = (\<forall>c \<in> set s. \<not> ws_char c \<and> c \<noteq> CHR '':'')"

definition entry_text :: "string \<times> (int \<times> int) \<Rightarrow> string" where
  \<comment> \<open>a line of the cache file without its newline\<close>
  "entry_text kv = fst kv @ '':'' @ decimal (fst (snd kv)) @ '','' @ decimal (snd (snd kv))"

definition entry_line :: "string \<times> (int \<times> int) \<Rightarrow> string" where
  "entry_line kv = entry_text kv @ [CHR 0x0A]"

definition cache_text :: "coords \<Rightarrow> string" where
  \<comment> \<open>the file that holds one line for each entry of the map\<close>
  "cache_text coords = concat (map entry_line coords)"

definition within_limit :: "int \<Rightarrow> bool" where
  \<comment> \<open>an integer of at most \<open>max_str_digits\<close> digits\<close>
  "within_limit i = (\<bar>i\<bar> < 10 ^ max_str_digits)"

definition short_bounds :: "element \<Rightarrow> bool" where
  \<comment> \<open>no number in a pair \<open>[x,y]\<close> of the bounds attribute has more than
      \<open>max_str_digits\<close> digits\<close>
  "short_bounds node =
     list_all (\<lambda>xy. length (fst xy) \<le> max_str_digits \<and> length (snd xy) \<le> max_str_digits)
       (re_findall_bounds (attrib_get node ''bounds'' []))"

definition short_size :: "string \<Rightarrow> bool" where
  \<comment> \<open>neither number of the first \<open>WxH\<close> of the answer has more than
      \<open>max_str_digits\<close> digits\<close>
  "short_size out =
     (case re_search_size out of
        None \<Rightarrow> True
      | Some (a, b) \<Rightarrow> length a \<le> max_str_digits \<and> length b \<le> max_str_digits)"

definition key_alphabet :: "string list" where
  \<comment> \<open>the keys of a coordinate map: the twelve dial keys and \<open>CALL\<close>\<close>
  "key_alphabet = map (\<lambda>c. [c]) dial_chars @ [''CALL'']"

definition digits :: "string \<Rightarrow> bool" where
  \<comment> \<open>what a group \<open>(\d+)\<close> can hold\<close>
  "digits d = (d \<noteq> [] \<and> list_all is_digit d)"

definition element_bounds :: "element \<Rightarrow> (int \<times> int \<times> int \<times> int) option" where
  \<comment> \<open>the bounds \<open>x1, y1, x2, y2\<close> of an element whose attribute holds exactly two pairs\<close>
  "element_bounds node =
     (case re_findall_bounds (attrib_get node ''bounds'' []) of
        [(x1, y1), (x2, y2)] \<Rightarrow>
          Some (int (nat_of_digits x1), int (nat_of_digits y1),
                int (nat_of_digits x2), int (nat_of_digits y2))
      | _ \<Rightarrow> None)"

definition midpoint :: "int \<times> int \<times> int \<times> int \<Rightarrow> int \<times> int" where
  \<comment> \<open>the specification's tap point: \<open>((x1+x2)/2, (y1+y2)/2)\<close>, the division rounding
      toward zero\<close>
  "midpoint b = (case b of (x1, y1, x2, y2) \<Rightarrow> ((x1 + x2) sdiv 2, (y1 + y2) sdiv 2))"



section \<open>Concrete inputs\<close>

definition key_node :: "string \<Rightarrow> string \<Rightarrow> element" where
  \<comment> \<open>a button that shows its character\<close>
  "key_node t b = [(''text'', t), (''bounds'', b)]"

definition call_node :: element where
  "call_node = [(''resource-id'', ''com.android.dialer:id/call_button''),
     (''bounds'', ''[420,1650][660,1851]'')]"

definition call_text_node :: element where
  \<comment> \<open>a call button that is recognisable by its text alone\<close>
  "call_text_node = [(''text'', ''Call''), (''bounds'', ''[420,1650][660,1851]'')]"

definition dialpad12 :: "element list" where
  \<comment> \<open>the twelve keys of a dial pad on a screen of 1080 by 1920\<close>
  "dialpad12 =
    [key_node ''1'' ''[0,800][360,1000]'',
     key_node ''2'' ''[360,800][720,1000]'',
     key_node ''3'' ''[720,800][1080,1000]'',
     key_node ''4'' ''[0,1000][360,1200]'',
     key_node ''5'' ''[360,1000][720,1200]'',
     key_node ''6'' ''[720,1000][1080,1200]'',
     key_node ''7'' ''[0,1200][360,1400]'',
     key_node ''8'' ''[360,1200][720,1400]'',
     key_node ''9'' ''[720,1200][1080,1400]'',
     key_node ''*'' ''[0,1400][360,1600]'',
     key_node ''0'' ''[360,1400][720,1600]'',
     key_node ''#'' ''[720,1400][1080,1600]'']"

definition dialpad10 :: "element list" where
  \<comment> \<open>the same dial pad with the keys 8 and 9 missing from the dump\<close>
  "dialpad10 =
    [key_node ''1'' ''[0,800][360,1000]'',
     key_node ''2'' ''[360,800][720,1000]'',
     key_node ''3'' ''[720,800][1080,1000]'',
     key_node ''4'' ''[0,1000][360,1200]'',
     key_node ''5'' ''[360,1000][720,1200]'',
     key_node ''6'' ''[720,1000][1080,1200]'',
     key_node ''7'' ''[0,1200][360,1400]'',
     key_node ''*'' ''[0,1400][360,1600]'',
     key_node ''0'' ''[360,1400][720,1600]'',
     key_node ''#'' ''[720,1400][1080,1600]'']"

definition parsed10 :: coords where
  \<comment> \<open>what is parsed from \<open>dialpad10\<close> and the call button\<close>
  "parsed10 =
    [(''1'', (180, 900)),
     (''2'', (540, 900)),
     (''3'', (900, 900)),
     (''4'', (180, 1100)),
     (''5'', (540, 1100)),
     (''6'', (900, 1100)),
     (''7'', (180, 1300)),
     (''*'', (180, 1500)),
     (''0'', (540, 1500)),
     (''#'', (900, 1500)),
     (''CALL'', (540, 1750))]"

definition parsed12 :: coords where
  \<comment> \<open>what is parsed from \<open>dialpad12\<close>\<close>
  "parsed12 =
    [(''1'', (180, 900)),
     (''2'', (540, 900)),
     (''3'', (900, 900)),
     (''4'', (180, 1100)),
     (''5'', (540, 1100)),
     (''6'', (900, 1100)),
     (''7'', (180, 1300)),
     (''8'', (540, 1300)),
     (''9'', (900, 1300)),
     (''*'', (180, 1500)),
     (''0'', (540, 1500)),
     (''#'', (900, 1500))]"

definition parsed13 :: coords where
  \<comment> \<open>a complete map: the twelve dial keys and \<open>CALL\<close>\<close>
  "parsed13 = parsed12 @ [(''CALL'', (540, 1750))]"


definition obs_dialer :: observations where
  \<comment> \<open>a device of 1080 by 1920 that is awake and answers every query\<close>
  "obs_dialer = \<lparr>power_reply = Inr ''mWakefulness=Awake'',
     size_swipe = Inr ''Physical size: 1080x1920'', dump_keypad = Some ''<hierarchy/>'',
     size_keypad = Inr ''Physical size: 1080x1920'', dump_coords = Some ''<hierarchy/>'',
     size_grid = Inr ''Physical size: 1080x1920'', size_call = Inr ''Physical size: 1080x1920'',
     cache_writable = True\<rparr>"


definition long_number :: string where
  \<comment> \<open>a number of 4301 digits\<close>
  "long_number = replicate 4301 CHR ''1''"

definition huge :: int where
  \<comment> \<open>the least integer of 4301 digits\<close>
  "huge = 10 ^ 4300"

definition tiny_grid :: coords where
  \<comment> \<open>the grid of a screen of 2 by 2\<close>
  "tiny_grid = layout [0, 1, 1] [0, 0, 0, 0] (1, 1)"

definition parser_of :: "element list \<Rightarrow> xml_parser" where
  \<comment> \<open>a parser that finds these elements in the document\<close>
  "parser_of nodes = (\<lambda>xml. Some nodes)"

definition empty_store :: store where
  "empty_store = \<lparr>global_coords = None, cache_file = None\<rparr>"

definition launcher_start :: launcher_state where
  \<comment> \<open>the state of a fresh process\<close>
  "launcher_start = \<lparr>device_last_seen = Map.empty, processed_sessions = Map.empty,
     csv_file = None, processed_devices = 0, total_time = 0\<rparr>"

definition clock_at :: "real \<Rightarrow> real \<Rightarrow> clock" where
  \<comment> \<open>a session that reads the clock at \<open>t\<close> when it starts and at \<open>t'\<close> when it ends\<close>
  "clock_at t t' = \<lparr>t_start = t, t_guard = t, t_mark = t, t_end = t', stamp = ''2025-01-01 00:00:00''\<rparr>"

definition focus_app :: string where
  "focus_app = ''mCurrentFocus=Window{1a2b u0 com.sprd.validationtools/com.zyt.agingtest.AgingTest}''"

definition focus_home :: string where
  "focus_home = ''mCurrentFocus=Window{3c4d u0 com.android.launcher3/.Launcher}''"

definition obs_running :: launcher_obs where
  \<comment> \<open>the screen is on, the application runs and has the focus\<close>
  "obs_running = \<lparr>power_out = Inr ''Display Power: state=ON'', key26_out = Inr [],
     key82_out = Inr [], swipe_out = Inr [], pidof_out = Inr ''4711'',
     focus1_out = Inr focus_app, focus2_out = Inr focus_app,
     launch1_out = Inr [], launch2_out = Inr [], csv_ok = True\<rparr>"

definition obs_retry :: launcher_obs where
  \<comment> \<open>the application does not run and takes the focus only after the second launch\<close>
  "obs_retry = \<lparr>power_out = Inr ''Display Power: state=OFF'', key26_out = Inr [],
     key82_out = Inr [], swipe_out = Inr [], pidof_out = Inr [],
     focus1_out = Inr focus_home, focus2_out = Inr focus_app,
     launch1_out = Inr ''Broadcast completed: result=0'',
     launch2_out = Inr ''Broadcast completed: result=0'', csv_ok = True\<rparr>"

definition obs_broken :: launcher_obs where
  \<comment> \<open>the first adb call of the session raises\<close>
  "obs_broken = obs_running\<lparr>power_out := Inl OSError\<rparr>"




section \<open>Proofs: the application launcher\<close>

lemmas io_defs =
  io_bind_def io_ret_def io_catch_def lift_def emit_def adb_capture_def adb_run_def tap_def adb_def

lemma all_dropWhile: "(\<forall>x \<in> set (dropWhile P xs). P x) \<longleftrightarrow> (\<forall>x \<in> set xs. P x)"
  by (induction xs) auto

lemma strip_empty_iff: "strip s = [] \<longleftrightarrow> (\<forall>c \<in> set s. ws_char c)"
  by (simp add: strip_def dropWhile_eq_Nil_conv all_dropWhile)

lemma strip_Nil: "strip [] = []"
  by (simp add: strip_def)

lemma strip_strip_empty: "strip (strip s) = [] \<longleftrightarrow> strip s = []"
proof
  assume a: "strip (strip s) = []"
  show "strip s = []"
  proof (rule ccontr)
    assume n: "strip s \<noteq> []"
    then have d: "dropWhile ws_char (rev (dropWhile ws_char s)) \<noteq> []"
      by (simp add: strip_def)
    then have "\<not> ws_char (hd (dropWhile ws_char (rev (dropWhile ws_char s))))"
      by (rule hd_dropWhile)
    moreover have "hd (dropWhile ws_char (rev (dropWhile ws_char s))) \<in> set (strip s)"
      using d by (simp add: strip_def)
    ultimately show False using a by (auto simp: strip_empty_iff)
  qed
next
  assume "strip s = []"
  then show "strip (strip s) = []" by (simp add: strip_Nil)
qed

lemma wake_and_unlock_launches: "launches (fst (wake_and_unlock obs)) = 0"
  by (auto simp: wake_and_unlock_def m10_is_screen_on_def io_defs launches_def
      split: sum.splits prod.splits)

lemma wake_and_unlock_ok:
  "\<not> isl (power_out obs) \<Longrightarrow> \<not> isl (key26_out obs) \<Longrightarrow> \<not> isl (key82_out obs)
   \<Longrightarrow> \<not> isl (swipe_out obs) \<Longrightarrow> snd (wake_and_unlock obs) = Inr ()"
  by (auto simp: wake_and_unlock_def m10_is_screen_on_def io_defs split: sum.splits prod.splits)

lemma session_status_launches: "launches (fst (session_status obs)) \<le> 2"
  unfolding session_status_def
  apply (cases "wake_and_unlock obs")
  using wake_and_unlock_launches [of obs]
  by (auto simp: is_app_running_def check_foreground_def launch_app_def io_defs launches_def
      split: sum.splits prod.splits)

lemma session_already_running:
  assumes "snd (wake_and_unlock obs) = Inr ()"
    and "pidof_out obs = Inr p" "strip p \<noteq> []"
    and "focus1_out obs = Inr f" "py_in app_package (strip f)"
  shows "snd (session_status obs) = Inr ''Already Running'' \<and>
         launches (fst (session_status obs)) = 0"
  unfolding session_status_def
  apply (cases "wake_and_unlock obs")
  using wake_and_unlock_launches [of obs] assms
  by (auto simp: is_app_running_def check_foreground_def launch_app_def io_defs launches_def
      strip_strip_empty split: sum.splits prod.splits)

lemma session_retry:
  assumes "snd (wake_and_unlock obs) = Inr ()"
    and "pidof_out obs = Inr p" "strip p = []"
    and "\<not> isl (launch1_out obs)"
    and "focus1_out obs = Inr f" "\<not> py_in app_package (strip f)"
    and "\<not> isl (launch2_out obs)"
    and "focus2_out obs = Inr f2" "py_in app_package (strip f2)"
  shows "snd (session_status obs) = Inr ''Launched After Retry'' \<and>
         launches (fst (session_status obs)) = 2"
  unfolding session_status_def
  apply (cases "wake_and_unlock obs")
  using wake_and_unlock_launches [of obs] assms
  by (auto simp: is_app_running_def check_foreground_def launch_app_def io_defs launches_def
      strip_strip_empty strip_Nil split: sum.splits prod.splits)

lemma process_device_events:
  "fst (m10_process_device obs clk d st) =
     (if in_cooldown st d (t_guard clk) then [] else fst (session_status obs))"
  by (auto simp: m10_process_device_def run_session_def Let_def split: prod.splits sum.splits)

lemma process_device_logged:
  "\<not> in_cooldown st d (t_guard clk) \<Longrightarrow> csv_ok obs \<Longrightarrow> snd (session_status obs) = Inr s \<Longrightarrow>
   snd (snd (m10_process_device obs clk d st)) = Logged s"
  by (auto simp: m10_process_device_def run_session_def Let_def log_to_csv_def
      split: prod.splits sum.splits option.splits)

text \<open>
  Claim C5. In a launch session that is not stopped by the cooldown and whose log can be
  written: when no command of the wake-up raises, \<open>pidof\<close> answers with a process id and the
  focused window is the application's, the recorded status is \<open>Already Running\<close> and
  \<open>launch_app\<close> was not called; when \<open>pidof\<close> answers nothing, the first launch is followed
  by a focus on another window and the second by a focus on the application, the status is
  \<open>Launched After Retry\<close> after exactly two calls of \<open>launch_app\<close>. Whatever the device
  answers, a session calls \<open>launch_app\<close> at most twice.
\<close>

theorem launch_session_outcomes:
  "(\<not> in_cooldown st d (t_guard clk) \<and> csv_ok obs \<and>
    \<not> isl (power_out obs) \<and> \<not> isl (key26_out obs) \<and> \<not> isl (key82_out obs) \<and>
    \<not> isl (swipe_out obs) \<and>
    pidof_out obs = Inr p \<and> strip p \<noteq> [] \<and> focus1_out obs = Inr f \<and> py_in app_package (strip f)
    \<longrightarrow> snd (snd (m10_process_device obs clk d st)) = Logged ''Already Running'' \<and>
        launches (fst (m10_process_device obs clk d st)) = 0)
   \<and>
   (\<not> in_cooldown st d (t_guard clk) \<and> csv_ok obs \<and>
    \<not> isl (power_out obs) \<and> \<not> isl (key26_out obs) \<and> \<not> isl (key82_out obs) \<and>
    \<not> isl (swipe_out obs) \<and>
    pidof_out obs = Inr p \<and> strip p = [] \<and> \<not> isl (launch1_out obs) \<and>
    focus1_out obs = Inr f \<and> \<not> py_in app_package (strip f) \<and> \<not> isl (launch2_out obs) \<and>
    focus2_out obs = Inr f2 \<and> py_in app_package (strip f2)
    \<longrightarrow> snd (snd (m10_process_device obs clk d st)) = Logged ''Launched After Retry'' \<and>
        launches (fst (m10_process_device obs clk d st)) = 2)
   \<and>
   launches (fst (m10_process_device obs clk d st)) \<le> 2"
proof (intro conjI impI)
  assume h: "\<not> in_cooldown st d (t_guard clk) \<and> csv_ok obs \<and>
    \<not> isl (power_out obs) \<and> \<not> isl (key26_out obs) \<and> \<not> isl (key82_out obs) \<and>
    \<not> isl (swipe_out obs) \<and>
    pidof_out obs = Inr p \<and> strip p \<noteq> [] \<and> focus1_out obs = Inr f \<and> py_in app_package (strip f)"
  then have w: "snd (wake_and_unlock obs) = Inr ()"
    by (simp add: wake_and_unlock_ok)
  from h have s: "snd (session_status obs) = Inr ''Already Running'' \<and>
      launches (fst (session_status obs)) = 0"
    using session_already_running [OF w, of p f] by simp
  from h s show "snd (snd (m10_process_device obs clk d st)) = Logged ''Already Running''"
    by (simp add: process_device_logged)
  from h s show "launches (fst (m10_process_device obs clk d st)) = 0"
    by (simp add: process_device_events)
next
  assume h: "\<not> in_cooldown st d (t_guard clk) \<and> csv_ok obs \<and>
    \<not> isl (power_out obs) \<and> \<not> isl (key26_out obs) \<and> \<not> isl (key82_out obs) \<and>
    \<not> isl (swipe_out obs) \<and>
    pidof_out obs = Inr p \<and> strip p = [] \<and> \<not> isl (launch1_out obs) \<and>
    focus1_out obs = Inr f \<and> \<not> py_in app_package (strip f) \<and> \<not> isl (launch2_out obs) \<and>
    focus2_out obs = Inr f2 \<and> py_in app_package (strip f2)"
  then have w: "snd (wake_and_unlock obs) = Inr ()"
    by (simp add: wake_and_unlock_ok)
  from h have s: "snd (session_status obs) = Inr ''Launched After Retry'' \<and>
      launches (fst (session_status obs)) = 2"
    using session_retry [OF w, of p f f2] by simp
  from h s show "snd (snd (m10_process_device obs clk d st)) = Logged ''Launched After Retry''"
    by (simp add: process_device_logged)
  from h s show "launches (fst (m10_process_device obs clk d st)) = 2"
    by (simp add: process_device_events)
next
  show "launches (fst (m10_process_device obs clk d st)) \<le> 2"
    using session_status_launches [of obs]
    by (simp add: process_device_events launches_def)
qed

theorem launch_session_outcomes_witness:
  "snd (snd (m10_process_device obs_running (clock_at 0 2) ''R58M'' launcher_start)) = Logged ''Already Running''
   \<and> launches (fst (m10_process_device obs_running (clock_at 0 2) ''R58M'' launcher_start)) = 0
   \<and> snd (snd (m10_process_device obs_retry (clock_at 0 9) ''R58M'' launcher_start)) = Logged ''Launched After Retry''
   \<and> launches (fst (m10_process_device obs_retry (clock_at 0 9) ''R58M'' launcher_start)) = 2"
proof -
  have a: "\<not> in_cooldown launcher_start ''R58M'' (t_guard (clock_at 0 2)) \<and> csv_ok obs_running \<and>
    \<not> isl (power_out obs_running) \<and> \<not> isl (key26_out obs_running) \<and> \<not> isl (key82_out obs_running) \<and>
    \<not> isl (swipe_out obs_running) \<and>
    pidof_out obs_running = Inr ''4711'' \<and> strip ''4711'' \<noteq> [] \<and> focus1_out obs_running = Inr focus_app \<and> py_in app_package (strip focus_app)"
    by code_simp
  have b: "\<not> in_cooldown launcher_start ''R58M'' (t_guard (clock_at 0 9)) \<and> csv_ok obs_retry \<and>
    \<not> isl (power_out obs_retry) \<and> \<not> isl (key26_out obs_retry) \<and> \<not> isl (key82_out obs_retry) \<and>
    \<not> isl (swipe_out obs_retry) \<and>
    pidof_out obs_retry = Inr [] \<and> strip [] = [] \<and> \<not> isl (launch1_out obs_retry) \<and>
    focus1_out obs_retry = Inr focus_home \<and> \<not> py_in app_package (strip focus_home) \<and> \<not> isl (launch2_out obs_retry) \<and>
    focus2_out obs_retry = Inr focus_app \<and> py_in app_package (strip focus_app)"
    by code_simp
  from a launch_session_outcomes [of launcher_start "''R58M''" "clock_at 0 2" obs_running "''4711''" focus_app]
  have 1: "snd (snd (m10_process_device obs_running (clock_at 0 2) ''R58M'' launcher_start)) = Logged ''Already Running''
   \<and> launches (fst (m10_process_device obs_running (clock_at 0 2) ''R58M'' launcher_start)) = 0"
    by blast
  from b launch_session_outcomes [of launcher_start "''R58M''" "clock_at 0 9" obs_retry "[]" focus_home focus_app]
  have 2: "snd (snd (m10_process_device obs_retry (clock_at 0 9) ''R58M'' launcher_start)) = Logged ''Launched After Retry''
   \<and> launches (fst (m10_process_device obs_retry (clock_at 0 9) ''R58M'' launcher_start)) = 2"
    by blast
  from 1 2 show ?thesis by blast
qed


section \<open>Proofs: the snapshot parsers\<close>

lemma is_digit_cases:
  "is_digit c \<Longrightarrow> \<not> ws_char c \<and> c \<noteq> CHR ''-'' \<and> c \<noteq> CHR ''+'' \<and> c \<noteq> CHR ''_'' \<and> c \<noteq> CHR '':'' \<and> c \<noteq> CHR '','' \<and> c \<noteq> CHR 0x0A \<and> c \<noteq> CHR 0x0D"
  by (auto simp: is_digit_def ws_char_def)

lemma split_on_absent: "c \<notin> set s \<Longrightarrow> split_on c s = [s]"
  by (induction s) auto

lemma strip_id:
  assumes "s \<noteq> []" "\<not> ws_char (hd s)" "\<not> ws_char (last s)"
  shows "strip s = s"
proof -
  have 1: "dropWhile ws_char s = s" using assms by (simp add: dropWhile_eq_self_iff)
  have 2: "dropWhile ws_char (rev s) = rev s" using assms by (simp add: dropWhile_eq_self_iff hd_rev)
  show ?thesis by (simp add: strip_def 1 2)
qed

lemma py_int_digits:
  assumes "d \<noteq> []" "list_all is_digit d"
  shows "py_int d =
    (if length d \<le> max_str_digits then Inr (int (nat_of_digits d)) else Inl ValueError)"
proof -
  from assms have h: "is_digit (hd d)" and l: "is_digit (last d)"
    by (auto simp: list_all_iff)
  then have s: "strip d = d" using assms(1) by (intro strip_id) (auto dest: is_digit_cases)
  from assms(2) have u: "CHR ''_'' \<notin> set d"
    by (auto simp: list_all_iff dest: is_digit_cases)
  obtain c r where d: "d = c # r" using assms(1) by (cases d) auto
  with h have c: "c \<noteq> CHR ''-''" "c \<noteq> CHR ''+''" by (auto dest: is_digit_cases)
  have body: "(case d of [] \<Rightarrow> (False, d)
      | c # r \<Rightarrow> if c = CHR ''-'' then (True, r)
                 else if c = CHR ''+'' then (False, r) else (False, d)) = (False, d)"
    using c by (simp add: d)
  have sp: "split_on CHR ''_'' d = [d]" using u by (rule split_on_absent)
  show ?thesis
    using assms by (simp only: py_int_def Let_def s body split_conv sp) simp
qed


lemma takeWhile_digits: "takeWhile is_digit s \<noteq> [] \<Longrightarrow> digits (takeWhile is_digit s)"
  by (auto simp: digits_def list_all_iff dest: set_takeWhileD)

lemma match_bounds_at_digits:
  "match_bounds_at s = Some ((x, y), rest) \<Longrightarrow> digits x \<and> digits y"
  by (auto simp: match_bounds_at_def Let_def takeWhile_digits split: list.splits if_splits)

lemma re_findall_bounds_digits:
  "(x, y) \<in> set (re_findall_bounds s) \<Longrightarrow> digits x \<and> digits y"
proof (induction s rule: re_findall_bounds.induct)
  case 1
  then show ?case by simp
next
  case (2 c cs)
  show ?case
  proof (cases "match_bounds_at (c # cs)")
    case None
    with 2 show ?thesis by simp
  next
    case (Some a)
    obtain g rest where a: "a = (g, rest)" by (cases a)
    from 2(3) Some a have "(x, y) = g \<or> (x, y) \<in> set (re_findall_bounds rest)" by simp
    then show ?thesis
    proof
      assume "(x, y) = g"
      with Some a show ?thesis using match_bounds_at_digits [of "c # cs" x y rest] by simp
    next
      assume "(x, y) \<in> set (re_findall_bounds rest)"
      with 2(2) [OF Some a [symmetric]] show ?thesis by simp
    qed
  qed
qed

lemma sdiv_2_nonneg: "0 \<le> a \<Longrightarrow> (a::int) sdiv 2 = a div 2"
  by (cases "a = 0") (simp_all add: signed_divide_int_def)

lemma center_two:
  assumes "length m = 2" "re_findall_bounds b = m"
  shows "\<exists>x1 y1 x2 y2. m = [(x1, y1), (x2, y2)] \<and>
      center m =
        (if length x1 \<le> max_str_digits \<and> length y1 \<le> max_str_digits \<and>
            length x2 \<le> max_str_digits \<and> length y2 \<le> max_str_digits
         then Inr ((int (nat_of_digits x1) + int (nat_of_digits x2)) div 2,
                   (int (nat_of_digits y1) + int (nat_of_digits y2)) div 2)
         else Inl ValueError)"
proof -
  from assms(1) obtain p q where m: "m = [p, q]"
    by (cases m; cases "tl m") auto
  obtain x1 y1 x2 y2 where pq: "p = (x1, y1)" "q = (x2, y2)" by (cases p; cases q) auto
  have "digits x1 \<and> digits y1" "digits x2 \<and> digits y2"
    using re_findall_bounds_digits [of _ _ b] assms(2) m pq by auto
  then have
    "py_int x1 = (if length x1 \<le> max_str_digits then Inr (int (nat_of_digits x1)) else Inl ValueError)"
    "py_int y1 = (if length y1 \<le> max_str_digits then Inr (int (nat_of_digits y1)) else Inl ValueError)"
    "py_int x2 = (if length x2 \<le> max_str_digits then Inr (int (nat_of_digits x2)) else Inl ValueError)"
    "py_int y2 = (if length y2 \<le> max_str_digits then Inr (int (nat_of_digits y2)) else Inl ValueError)"
    by (simp_all add: py_int_digits digits_def)
  then show ?thesis
    unfolding m pq center_def by (simp add: ebind_def)
qed

lemma center_midpoint:
  assumes "length (re_findall_bounds (attrib_get node ''bounds'' [])) = 2"
  shows "\<exists>b. element_bounds node = Some b \<and>
     center (re_findall_bounds (attrib_get node ''bounds'' [])) =
       (if short_bounds node then Inr (midpoint b) else Inl ValueError)"
proof -
  from center_two [OF assms refl] obtain x1 y1 x2 y2 where
    m: "re_findall_bounds (attrib_get node ''bounds'' []) = [(x1, y1), (x2, y2)]"
    and c: "center [(x1, y1), (x2, y2)] =
      (if length x1 \<le> max_str_digits \<and> length y1 \<le> max_str_digits \<and>
          length x2 \<le> max_str_digits \<and> length y2 \<le> max_str_digits
       then Inr ((int (nat_of_digits x1) + int (nat_of_digits x2)) div 2,
                 (int (nat_of_digits y1) + int (nat_of_digits y2)) div 2)
       else Inl ValueError)"
    by auto
  show ?thesis
    by (simp add: element_bounds_def short_bounds_def m c midpoint_def sdiv_2_nonneg)
qed

lemma parse_node_cases:
  "parse_node coords node = Inr coords \<or>
   (\<exists>k b. node_key node = Some k \<and> element_bounds node = Some b \<and>
      parse_node coords node = Inr (dict_set k (midpoint b) coords)) \<or>
   (\<not> short_bounds node \<and> parse_node coords node = Inl ValueError)"
proof (cases "node_key node")
  case None
  then show ?thesis by (simp add: parse_node_def)
next
  case (Some k)
  show ?thesis
  proof (cases "k \<noteq> [] \<and> attrib_get node ''bounds'' [] \<noteq> [] \<and>
      length (re_findall_bounds (attrib_get node ''bounds'' [])) = 2")
    case True
    with center_midpoint [of node] obtain b where
      "element_bounds node = Some b"
      "center (re_findall_bounds (attrib_get node ''bounds'' [])) =
         (if short_bounds node then Inr (midpoint b) else Inl ValueError)"
      by blast
    with True Some show ?thesis
      by (cases "short_bounds node") (simp_all add: parse_node_def Let_def ebind_def)
  next
    case False
    with Some show ?thesis by (auto simp: parse_node_def Let_def)
  qed
qed

lemma parse_node_ignored:
  "length (re_findall_bounds (attrib_get node ''bounds'' [])) \<noteq> 2 \<Longrightarrow>
   parse_node coords node = Inr coords"
  by (auto simp: parse_node_def Let_def split: option.splits)

lemma parse_nodes_raise:
  "parse_nodes coords nodes = Inl e \<Longrightarrow> e = ValueError \<and> \<not> list_all short_bounds nodes"
proof (induction nodes arbitrary: coords)
  case Nil
  then show ?case by simp
next
  case (Cons node nodes)
  from parse_node_cases [of coords node]
  consider c where "parse_node coords node = Inr c"
    | "\<not> short_bounds node" "parse_node coords node = Inl ValueError"
    by blast
  then show ?case
  proof cases
    case 1
    with Cons.prems have "parse_nodes c nodes = Inl e" by (simp add: ebind_def)
    from Cons.IH [OF this] show ?thesis by simp
  next
    case 2
    with Cons.prems show ?thesis by (simp add: ebind_def)
  qed
qed

lemma parse_nodes_short:
  "list_all short_bounds nodes \<Longrightarrow> \<exists>coords'. parse_nodes coords nodes = Inr coords'"
  using parse_nodes_raise [of coords nodes] by (cases "parse_nodes coords nodes") auto






lemma parse_nodes_append:
  "parse_nodes coords (xs @ ys) = ebind (parse_nodes coords xs) (\<lambda>c. parse_nodes c ys)"
proof (induction xs arbitrary: coords)
  case Nil
  then show ?case by (simp add: ebind_def)
next
  case (Cons x xs)
  then show ?case by (cases "parse_node coords x") (simp_all add: ebind_def)
qed

text \<open>
  Claim C10 (as amended). For every parser and every input text in which no number of a
  bounds attribute has more than 4300 digits, \<open>parse_coords_from_ui\<close> returns a map and
  raises nothing; when the document cannot be parsed the map is empty. The only exception
  it raises at all is \<open>ValueError\<close>, and only on a snapshot that holds such a number. An
  element whose bounds attribute does not hold exactly two \<open>[x,y]\<close> pairs is passed over:
  the result is that of the snapshot without it.
\<close>

theorem parse_coords_raises_only_beyond_limit:
  "(fromstring xml = None \<longrightarrow> parse_coords_from_ui fromstring xml = Inr [])
   \<and> (fromstring xml = Some nodes \<and> list_all short_bounds nodes
        \<longrightarrow> (\<exists>coords. parse_coords_from_ui fromstring xml = Inr coords))
   \<and> (parse_coords_from_ui fromstring xml = Inl e
        \<longrightarrow> e = ValueError \<and>
            (\<exists>nodes. fromstring xml = Some nodes \<and> \<not> list_all short_bounds nodes))
   \<and> (fromstring xml = Some (before @ node # after) \<and>
        length (re_findall_bounds (attrib_get node ''bounds'' [])) \<noteq> 2
      \<longrightarrow> parse_coords_from_ui fromstring xml = parse_nodes [] (before @ after))"
proof (intro conjI impI)
  assume "fromstring xml = None"
  then show "parse_coords_from_ui fromstring xml = Inr []"
    by (simp add: parse_coords_from_ui_def)
next
  assume "fromstring xml = Some nodes \<and> list_all short_bounds nodes"
  then show "\<exists>coords. parse_coords_from_ui fromstring xml = Inr coords"
    using parse_nodes_short [of nodes "[]"] by (simp add: parse_coords_from_ui_def)
next
  assume r: "parse_coords_from_ui fromstring xml = Inl e"
  then obtain nodes where n: "fromstring xml = Some nodes" "parse_nodes [] nodes = Inl e"
    by (cases "fromstring xml") (simp_all add: parse_coords_from_ui_def)
  from parse_nodes_raise [OF n(2)] show "e = ValueError" by simp
  from parse_nodes_raise [OF n(2)] n(1)
  show "\<exists>nodes. fromstring xml = Some nodes \<and> \<not> list_all short_bounds nodes" by simp
next
  assume h: "fromstring xml = Some (before @ node # after) \<and>
        length (re_findall_bounds (attrib_get node ''bounds'' [])) \<noteq> 2"
  then have skip: "parse_node c node = Inr c" for c
    by (simp add: parse_node_ignored)
  have "parse_nodes [] (before @ node # after) = parse_nodes [] (before @ after)"
    by (cases "parse_nodes [] before") (simp_all add: parse_nodes_append ebind_def skip)
  with h show "parse_coords_from_ui fromstring xml = parse_nodes [] (before @ after)"
    by (simp add: parse_coords_from_ui_def)
qed



theorem parse_coords_raises_only_beyond_limit_witness:
  "parse_coords_from_ui (\<lambda>xml. None) ''<hierarchy'' = Inr [] \<and>
   (\<exists>coords. parse_coords_from_ui
      (parser_of [key_node ''1'' ''[0,0][100,101]'', key_node ''2'' ''[7,7]'']) ''<hierarchy/>''
      = Inr coords) \<and>
   parse_coords_from_ui (parser_of [key_node ''1'' ''[0,0][100,101]'', key_node ''2'' ''[7,7]''])
     ''<hierarchy/>'' = Inr [(''1'', (50, 50))]"
proof -
  have a: "parse_coords_from_ui (\<lambda>xml. None) ''<hierarchy'' = Inr []"
    using parse_coords_raises_only_beyond_limit [of "\<lambda>xml. None" "''<hierarchy''"] by simp
  have h: "parser_of [key_node ''1'' ''[0,0][100,101]'', key_node ''2'' ''[7,7]''] ''<hierarchy/>''
        = Some ([key_node ''1'' ''[0,0][100,101]''] @ key_node ''2'' ''[7,7]'' # []) \<and>
      length (re_findall_bounds (attrib_get (key_node ''2'' ''[7,7]'') ''bounds'' [])) \<noteq> 2"
    by code_simp
  have r: "re_findall_bounds (attrib_get (key_node ''1'' ''[0,0][100,101]'') ''bounds'' [])
        = [(''0'', ''0''), (''100'', ''101'')]"
      "re_findall_bounds (attrib_get (key_node ''2'' ''[7,7]'') ''bounds'' []) = [(''7'', ''7'')]"
    by code_simp+
  have s: "parser_of [key_node ''1'' ''[0,0][100,101]'', key_node ''2'' ''[7,7]''] ''<hierarchy/>''
        = Some [key_node ''1'' ''[0,0][100,101]'', key_node ''2'' ''[7,7]''] \<and>
      list_all short_bounds [key_node ''1'' ''[0,0][100,101]'', key_node ''2'' ''[7,7]'']"
    by (simp add: parser_of_def short_bounds_def r max_str_digits_def)
  have e: "parse_nodes [] ([key_node ''1'' ''[0,0][100,101]''] @ []) = Inr [(''1'', (50, 50))]"
    by code_simp
  from s parse_coords_raises_only_beyond_limit
      [of "parser_of [key_node ''1'' ''[0,0][100,101]'', key_node ''2'' ''[7,7]'']"
        "''<hierarchy/>''" "[key_node ''1'' ''[0,0][100,101]'', key_node ''2'' ''[7,7]'']"]
  have b: "\<exists>coords. parse_coords_from_ui
      (parser_of [key_node ''1'' ''[0,0][100,101]'', key_node ''2'' ''[7,7]'']) ''<hierarchy/>''
      = Inr coords"
    by blast
  from h e parse_coords_raises_only_beyond_limit
      [of "parser_of [key_node ''1'' ''[0,0][100,101]'', key_node ''2'' ''[7,7]'']"
        "''<hierarchy/>''" _ _ "[key_node ''1'' ''[0,0][100,101]'']" "key_node ''2'' ''[7,7]''" "[]"]
  have c: "parse_coords_from_ui
      (parser_of [key_node ''1'' ''[0,0][100,101]'', key_node ''2'' ''[7,7]'']) ''<hierarchy/>''
      = Inr [(''1'', (50, 50))]"
    by simp
  from a b c show ?thesis by simp
qed

text \<open>
  Claim C10 as stated fails: a key whose bounds attribute starts with a number of 4301
  digits is matched by \<open>\[(\d+),(\d+)\]\<close> twice, and \<open>int\<close> of that number raises
  \<open>ValueError\<close> outside the only \<open>try\<close> of the function.
\<close>

theorem long_bounds_number_raises:
  "parse_coords_from_ui (parser_of [key_node ''1'' (''['' @ long_number @ '',0][1,1]'')])
     ''<hierarchy/>'' = Inl ValueError"
proof -
  have d: "list_all is_digit long_number" "long_number \<noteq> []" "length long_number = 4301"
    by (simp_all add: long_number_def list_all_iff is_digit_def)
  have t: "takeWhile is_digit (long_number @ '',0][1,1]'') = long_number"
    "dropWhile is_digit (long_number @ '',0][1,1]'') = '',0][1,1]''"
    using d(1) by (simp_all add: takeWhile_append2 dropWhile_append2 list_all_iff is_digit_def)
  have m: "match_bounds_at (''['' @ long_number @ '',0][1,1]'')
      = Some ((long_number, ''0''), ''[1,1]'')"
    using d(2) by (simp add: match_bounds_at_def t is_digit_def)
  have "re_findall_bounds ''[1,1]'' = [(''1'', ''1'')]"
    by code_simp
  with m have f: "re_findall_bounds (''['' @ long_number @ '',0][1,1]'')
      = [(long_number, ''0''), (''1'', ''1'')]"
    by simp
  have "py_int long_number = Inl ValueError"
    using d by (simp add: py_int_digits max_str_digits_def)
  then have c: "center [(long_number, ''0''), (''1'', ''1'')] = Inl ValueError"
    by (simp add: center_def ebind_def)
  have k: "node_key (key_node ''1'' b) = Some ''1''" for b
    by (simp add: node_key_def key_node_def attrib_get_def strip_def ws_char_def dial_chars_def)
  have "parse_node [] (key_node ''1'' (''['' @ long_number @ '',0][1,1]'')) = Inl ValueError"
    using f c k d(2)
    by (simp add: parse_node_def Let_def ebind_def)
      (simp add: key_node_def attrib_get_def)
  then show ?thesis
    by (simp add: parse_coords_from_ui_def parser_of_def ebind_def)
qed


section \<open>Proofs: the coordinate resolver\<close>

lemma fallback_grid_events: "fst (fallback_grid r) = [WmSize]"
  by (auto simp: fallback_grid_def io_defs split: sum.splits prod.splits option.splits)

lemma dump_ui_result: "snd (dump_ui pulled) = Inr pulled \<and> WmSize \<notin> set (fst (dump_ui pulled))"
  by (auto simp: dump_ui_def io_defs split: option.splits)

lemma attempt_parse_short:
  assumes "\<forall>x nodes. pulled = Some x \<and> fromstring x = Some nodes \<longrightarrow> list_all short_bounds nodes"
  shows "\<exists>coords. attempt_parse fromstring pulled = Inr coords"
proof (cases pulled)
  case None
  then show ?thesis by (simp add: attempt_parse_def)
next
  case (Some x)
  show ?thesis
  proof (cases "fromstring x")
    case None
    with Some show ?thesis by (simp add: attempt_parse_def parse_coords_from_ui_def)
  next
    case (Some nodes)
    with \<open>pulled = Some x\<close> assms have "list_all short_bounds nodes" by simp
    from parse_nodes_short [OF this, of "[]"] Some \<open>pulled = Some x\<close> show ?thesis
      by (simp add: attempt_parse_def parse_coords_from_ui_def)
  qed
qed

text \<open>
  Claim C1 (as amended). When no coordinate map is cached, \<open>prepare_coords_for_device\<close>
  queries the screen size for the fallback grid exactly when fewer than ten of the parsed
  keys are dial keys (strings that occur in \<open>0123456789*#\<close>) or no \<open>CALL\<close> key was
  parsed; it then returns the grid (or the grid's exception). Otherwise, and so for a dump
  with ten or eleven of the twelve dial keys and a \<open>CALL\<close> key, it returns the parsed map
  as it is and publishes it. The dump is parsed to a map whenever no number of a bounds
  attribute has more than 4300 digits; when parsing raises, the resolver raises with it and
  does not ask for the grid.
\<close>

theorem prepare_coords_fallback_rule:
  assumes "\<not> truthy (global_coords st)"
  shows "(attempt_parse fromstring pulled = Inr coords \<longrightarrow>
      (WmSize \<in> set (fst (prepare_coords_for_device fromstring pulled size_reply ok st))
         \<longleftrightarrow> dial_key_count coords < 10 \<or> \<not> has_key ''CALL'' coords) \<and>
      (dial_key_count coords < 10 \<or> \<not> has_key ''CALL'' coords \<longrightarrow>
         snd (prepare_coords_for_device fromstring pulled size_reply ok st) =
           (case snd (fallback_grid size_reply) of
              Inl e \<Rightarrow> Inl e
            | Inr g \<Rightarrow> Inr (g, publish ok g st))) \<and>
      (\<not> (dial_key_count coords < 10 \<or> \<not> has_key ''CALL'' coords) \<longrightarrow>
         snd (prepare_coords_for_device fromstring pulled size_reply ok st) =
           Inr (coords, publish ok coords st)))
    \<and> (attempt_parse fromstring pulled = Inl e \<longrightarrow>
         snd (prepare_coords_for_device fromstring pulled size_reply ok st) = Inl e \<and>
         WmSize \<notin> set (fst (prepare_coords_for_device fromstring pulled size_reply ok st)))
    \<and> ((\<forall>x nodes. pulled = Some x \<and> fromstring x = Some nodes \<longrightarrow> list_all short_bounds nodes)
         \<longrightarrow> (\<exists>parsed. attempt_parse fromstring pulled = Inr parsed))"
proof -
  obtain ev where d: "dump_ui pulled = (ev, Inr pulled)" "WmSize \<notin> set ev"
    using dump_ui_result [of pulled] by (cases "dump_ui pulled") auto
  obtain r where f: "fallback_grid size_reply = ([WmSize], r)"
    using fallback_grid_events [of size_reply] by (cases "fallback_grid size_reply") auto
  have p: "lift (attempt_parse fromstring pulled) = ([], Inr coords)"
    if "attempt_parse fromstring pulled = Inr coords"
    using that by (simp add: lift_def)
  have q: "lift (attempt_parse fromstring pulled) = ([], Inl e)"
    if "attempt_parse fromstring pulled = Inl e"
    using that by (simp add: lift_def)
  show ?thesis
  proof (intro conjI impI)
    assume c: "attempt_parse fromstring pulled = Inr coords"
    show "(WmSize \<in> set (fst (prepare_coords_for_device fromstring pulled size_reply ok st)))
       = (dial_key_count coords < 10 \<or> \<not> has_key ''CALL'' coords)"
      using assms d f
      by (cases r)
        (auto simp: prepare_coords_for_device_def p [OF c] parse_incomplete_def io_bind_def io_ret_def)
  next
    assume c: "attempt_parse fromstring pulled = Inr coords"
    assume "dial_key_count coords < 10 \<or> \<not> has_key ''CALL'' coords"
    then show "snd (prepare_coords_for_device fromstring pulled size_reply ok st) =
         (case snd (fallback_grid size_reply) of
            Inl e \<Rightarrow> Inl e
          | Inr g \<Rightarrow> Inr (g, publish ok g st))"
      using assms d f
      by (cases r)
        (auto simp: prepare_coords_for_device_def p [OF c] parse_incomplete_def io_bind_def io_ret_def
          publish_def)
  next
    assume c: "attempt_parse fromstring pulled = Inr coords"
    assume "\<not> (dial_key_count coords < 10 \<or> \<not> has_key ''CALL'' coords)"
    then show "snd (prepare_coords_for_device fromstring pulled size_reply ok st) =
         Inr (coords, publish ok coords st)"
      using assms d f
      by (auto simp: prepare_coords_for_device_def p [OF c] parse_incomplete_def io_bind_def io_ret_def
          publish_def)
  next
    assume c: "attempt_parse fromstring pulled = Inl e"
    show "snd (prepare_coords_for_device fromstring pulled size_reply ok st) = Inl e"
      using assms d by (simp add: prepare_coords_for_device_def q [OF c] io_bind_def)
  next
    assume c: "attempt_parse fromstring pulled = Inl e"
    show "WmSize \<notin> set (fst (prepare_coords_for_device fromstring pulled size_reply ok st))"
      using assms d by (simp add: prepare_coords_for_device_def q [OF c] io_bind_def)
  next
    assume "\<forall>x nodes. pulled = Some x \<and> fromstring x = Some nodes \<longrightarrow> list_all short_bounds nodes"
    then show "\<exists>parsed. attempt_parse fromstring pulled = Inr parsed"
      by (rule attempt_parse_short)
  qed
qed


theorem prepare_coords_fallback_rule_witness:
  "WmSize \<in> set (fst (prepare_coords_for_device (parser_of dialpad12) None
      (Inr ''Physical size: 1080x1920'') True empty_store))"
proof -
  have h: "\<not> truthy (global_coords empty_store)"
    by code_simp
  have e: "attempt_parse (parser_of dialpad12) None = Inr []"
    by (simp add: attempt_parse_def)
  have i: "dial_key_count [] < 10"
    by (simp add: dial_key_count_def dict_keys_def)
  from prepare_coords_fallback_rule [OF h, where fromstring = "parser_of dialpad12"
      and pulled = None and coords = "[]" and size_reply = "Inr ''Physical size: 1080x1920''"
      and ok = True] e i
  show ?thesis by auto
qed

text \<open>
  Claim C1 as stated fails: from a dump with the digits 0 to 7, \<open>*\<close>, \<open>#\<close> and a call
  button, ten dial keys are counted, the grid is not asked for and the map without 8 and 9
  is returned and published.
\<close>

theorem eight_digits_no_fallback:
  "prepare_coords_for_device (parser_of (dialpad10 @ [call_node])) (Some ''<hierarchy/>'')
      (Inr ''Physical size: 1080x1920'') True empty_store
     = ([UiDump, PullDump], Inr (parsed10, publish True parsed10 empty_store))
   \<and> \<not> has_key ''8'' parsed10 \<and> \<not> has_key ''9'' parsed10"
  by code_simp

text \<open>
  Claim C2, at a dump with all twelve dial keys and a button whose text is \<open>Call\<close>: the
  first pass finds the twelve keys and no \<open>CALL\<close>; the second pass, run on them, would add
  \<open>CALL\<close> at the centre of that button; but \<open>prepare_coords_for_device\<close> takes the
  fallback grid and publishes it, so the parsed keys are discarded.
\<close>

theorem missing_call_discards_parsed_map:
  "attempt_parse (parser_of (dialpad12 @ [call_text_node])) (Some ''<hierarchy/>'') = Inr parsed12
   \<and> second_pass (parser_of (dialpad12 @ [call_text_node])) (Some ''<hierarchy/>'') parsed12
       = parsed12 @ [(''CALL'', (540, 1750))]
   \<and> prepare_coords_for_device (parser_of (dialpad12 @ [call_text_node])) (Some ''<hierarchy/>'')
        (Inr ''Physical size: 1080x1920'') True empty_store
       = ([UiDump, PullDump, WmSize],
          case grid 1080 1920 of
            Inl e \<Rightarrow> Inl e
          | Inr g \<Rightarrow> Inr (g, publish True g empty_store))
   \<and> map_option (\<lambda>g. map_of g ''1'') (case grid 1080 1920 of Inl e \<Rightarrow> None | Inr g \<Rightarrow> Some g)
       = Some (Some (129, 864))
   \<and> map_of parsed12 ''1'' = Some (180, 900)"
  by code_simp


section \<open>Proofs: typing the code\<close>











section \<open>Proofs: outcome records\<close>

lemma session_status_ok:
  assumes "\<not> isl (power_out obs)" "\<not> isl (key26_out obs)" "\<not> isl (key82_out obs)"
    "\<not> isl (swipe_out obs)" "\<not> isl (pidof_out obs)" "\<not> isl (focus1_out obs)"
    "\<not> isl (focus2_out obs)" "\<not> isl (launch1_out obs)" "\<not> isl (launch2_out obs)"
  shows "\<exists>status. snd (session_status obs) = Inr status"
proof -
  from assms have w: "snd (wake_and_unlock obs) = Inr ()" by (simp add: wake_and_unlock_ok)
  show ?thesis
    unfolding session_status_def
    apply (cases "wake_and_unlock obs")
    using w assms(5-9)
    by (auto simp: is_app_running_def check_foreground_def launch_app_def io_defs
        split: sum.splits prod.splits)
qed

lemma run_session_logged:
  "snd (snd (run_session obs clk d st)) = Logged status \<Longrightarrow>
   records (csv_file (fst (snd (run_session obs clk d st)))) =
     records (csv_file st) @ [Outcome d status (t_end clk - t_start clk) (stamp clk)]"
  by (auto simp: run_session_def Let_def log_to_csv_def records_def
      split: prod.splits sum.splits option.splits if_splits)

lemma run_session_raised:
  "snd (snd (run_session obs clk d st)) = Raised e \<Longrightarrow>
   csv_file (fst (snd (run_session obs clk d st))) = csv_file st"
  by (auto simp: run_session_def Let_def split: prod.splits sum.splits)

lemma run_session_not_skipped: "snd (snd (run_session obs clk d st)) \<noteq> Skipped"
  by (auto simp: run_session_def Let_def split: prod.splits sum.splits)

lemma csv_file_mark: "csv_file (mark_session clk d st) = csv_file st"
  by (simp add: mark_session_def)

text \<open>
  Claim C4 (as amended). A launch session that is not stopped by the cooldown, in which no
  adb call raises and whose log can be written, runs to its end; a session that runs to its
  end has appended exactly one outcome record, with its device, status and duration, to the
  log; a session that an exception ends, and a call stopped by the cooldown, leave the log
  as it was. In the polling script an exception before the code is typed ends the session
  with the error printed and the store unchanged; that script writes no record at all.
\<close>

theorem session_records:
  "(\<not> in_cooldown st d (t_guard clk) \<and> csv_ok obs \<and>
    \<not> isl (power_out obs) \<and> \<not> isl (key26_out obs) \<and> \<not> isl (key82_out obs) \<and>
    \<not> isl (swipe_out obs) \<and> \<not> isl (pidof_out obs) \<and> \<not> isl (focus1_out obs) \<and>
    \<not> isl (focus2_out obs) \<and> \<not> isl (launch1_out obs) \<and> \<not> isl (launch2_out obs)
    \<longrightarrow> (\<exists>status. snd (snd (m10_process_device obs clk d st)) = Logged status))
   \<and>
   (snd (snd (m10_process_device obs clk d st)) = Logged status
    \<longrightarrow> records (csv_file (fst (snd (m10_process_device obs clk d st)))) =
          records (csv_file st) @ [Outcome d status (t_end clk - t_start clk) (stamp clk)])
   \<and>
   (snd (snd (m10_process_device obs clk d st)) = Raised e
    \<longrightarrow> csv_file (fst (snd (m10_process_device obs clk d st))) = csv_file st)
   \<and>
   (snd (snd (m10_process_device obs clk d st)) = Skipped
    \<longrightarrow> csv_file (fst (snd (m10_process_device obs clk d st))) = csv_file st)
   \<and>
   (snd (open_dialer fromstring pobs pst) = Inl e
    \<longrightarrow> process_device fromstring pobs code pst =
          (fst (open_dialer fromstring pobs pst) @ [Print_error e], pst))"
proof (intro conjI impI)
  assume h: "\<not> in_cooldown st d (t_guard clk) \<and> csv_ok obs \<and>
    \<not> isl (power_out obs) \<and> \<not> isl (key26_out obs) \<and> \<not> isl (key82_out obs) \<and>
    \<not> isl (swipe_out obs) \<and> \<not> isl (pidof_out obs) \<and> \<not> isl (focus1_out obs) \<and>
    \<not> isl (focus2_out obs) \<and> \<not> isl (launch1_out obs) \<and> \<not> isl (launch2_out obs)"
  then obtain status where "snd (session_status obs) = Inr status"
    using session_status_ok [of obs] by blast
  with h have "snd (snd (m10_process_device obs clk d st)) = Logged status"
    by (simp add: process_device_logged)
  then show "\<exists>status. snd (snd (m10_process_device obs clk d st)) = Logged status" ..
next
  assume "snd (snd (m10_process_device obs clk d st)) = Logged status"
  then show "records (csv_file (fst (snd (m10_process_device obs clk d st)))) =
          records (csv_file st) @ [Outcome d status (t_end clk - t_start clk) (stamp clk)]"
    using run_session_logged [of obs clk d "mark_session clk d st" status]
    by (simp add: m10_process_device_def csv_file_mark split: if_splits)
next
  assume "snd (snd (m10_process_device obs clk d st)) = Raised e"
  then show "csv_file (fst (snd (m10_process_device obs clk d st))) = csv_file st"
    using run_session_raised [of obs clk d "mark_session clk d st" e]
    by (simp add: m10_process_device_def csv_file_mark split: if_splits)
next
  assume "snd (snd (m10_process_device obs clk d st)) = Skipped"
  then show "csv_file (fst (snd (m10_process_device obs clk d st))) = csv_file st"
    using run_session_not_skipped [of obs clk d "mark_session clk d st"]
    by (simp add: m10_process_device_def split: if_splits)
next
  assume "snd (open_dialer fromstring pobs pst) = Inl e"
  then show "process_device fromstring pobs code pst =
          (fst (open_dialer fromstring pobs pst) @ [Print_error e], pst)"
    by (cases "open_dialer fromstring pobs pst") (simp add: process_device_def)
qed

theorem session_records_witness:
  "(\<exists>status. records (csv_file (fst (snd (m10_process_device obs_running (clock_at 0 2) ''R58M''
       launcher_start)))) = [Outcome ''R58M'' status 2 ''2025-01-01 00:00:00''])
   \<and> csv_file (fst (snd (m10_process_device obs_broken (clock_at 0 2) ''R58M'' launcher_start))) = None
   \<and> csv_file (fst (snd (m10_process_device obs_running (clock_at 40 42) ''R58M''
        (mark_session (clock_at 20 22) ''R58M'' launcher_start)))) = None
   \<and> process_device (\<lambda>xml. None) obs_dialer ''*123#'' empty_store =
       ([WaitForDevice, DumpsysPower, WmSize, Swipe [540, 1536, 540, 480, 300], UiDump, PullDump,
         Print_error ParseError], empty_store)"
proof -
  have h1: "\<not> in_cooldown launcher_start ''R58M'' (t_guard (clock_at 0 2)) \<and> csv_ok obs_running \<and>
    \<not> isl (power_out obs_running) \<and> \<not> isl (key26_out obs_running) \<and>
    \<not> isl (key82_out obs_running) \<and> \<not> isl (swipe_out obs_running) \<and>
    \<not> isl (pidof_out obs_running) \<and> \<not> isl (focus1_out obs_running) \<and>
    \<not> isl (focus2_out obs_running) \<and> \<not> isl (launch1_out obs_running) \<and>
    \<not> isl (launch2_out obs_running)"
    by code_simp
  have r0: "records (csv_file launcher_start) = []" "csv_file launcher_start = None"
    "t_end (clock_at 0 2) - t_start (clock_at 0 2) = 2" "stamp (clock_at 0 2) = ''2025-01-01 00:00:00''"
    "csv_file (mark_session (clock_at 20 22) ''R58M'' launcher_start) = None"
    by (simp_all add: launcher_start_def records_def clock_at_def mark_session_def)
  have h2: "snd (snd (m10_process_device obs_broken (clock_at 0 2) ''R58M'' launcher_start))
      = Raised OSError"
    by code_simp
  have h3: "snd (snd (m10_process_device obs_running (clock_at 40 42) ''R58M''
        (mark_session (clock_at 20 22) ''R58M'' launcher_start))) = Skipped"
    by code_simp
  have h4: "open_dialer (\<lambda>xml. None) obs_dialer empty_store =
      ([WaitForDevice, DumpsysPower, WmSize, Swipe [540, 1536, 540, 480, 300], UiDump, PullDump],
       Inl ParseError)"
    by code_simp
  note t = session_records [of launcher_start "''R58M''" "clock_at 0 2" obs_running]
  from t h1 obtain status where
    l: "snd (snd (m10_process_device obs_running (clock_at 0 2) ''R58M'' launcher_start)) = Logged status"
    by blast
  with session_records [of launcher_start "''R58M''" "clock_at 0 2" obs_running status] r0
  have 1: "records (csv_file (fst (snd (m10_process_device obs_running (clock_at 0 2) ''R58M''
       launcher_start)))) = [Outcome ''R58M'' status 2 ''2025-01-01 00:00:00'']"
    by simp
  from session_records [of launcher_start "''R58M''" "clock_at 0 2" obs_broken _ OSError] h2 r0
  have 2: "csv_file (fst (snd (m10_process_device obs_broken (clock_at 0 2) ''R58M'' launcher_start))) = None"
    by simp
  from session_records [of "mark_session (clock_at 20 22) ''R58M'' launcher_start" "''R58M''"
      "clock_at 40 42" obs_running] h3 r0
  have 3: "csv_file (fst (snd (m10_process_device obs_running (clock_at 40 42) ''R58M''
        (mark_session (clock_at 20 22) ''R58M'' launcher_start)))) = None"
    by simp
  from session_records [of _ _ _ _ _ ParseError "\<lambda>xml. None" obs_dialer empty_store "''*123#''"] h4
  have 4: "process_device (\<lambda>xml. None) obs_dialer ''*123#'' empty_store =
       ([WaitForDevice, DumpsysPower, WmSize, Swipe [540, 1536, 540, 480, 300], UiDump, PullDump,
         Print_error ParseError], empty_store)"
    by simp
  from 1 2 3 4 show ?thesis by blast
qed

text \<open>
  Claim C4 as stated fails: when the first adb call of a launch session raises, the
  exception leaves \<open>process_device\<close> and nothing is appended to the log.
\<close>

theorem failed_session_leaves_no_record:
  "snd (snd (m10_process_device obs_broken (clock_at 0 2) ''R58M'' launcher_start)) = Raised OSError
   \<and> records (csv_file (fst (snd (m10_process_device obs_broken (clock_at 0 2) ''R58M''
        launcher_start)))) = []"
  by code_simp


section \<open>Proofs: the cache file\<close>

declare str_nat.simps [simp del]

lemma less_10_cases: "(n::nat) < 10 \<Longrightarrow> n \<in> set [0, 1, 2, 3, 4, 5, 6, 7, 8, 9]"
  by simp arith

lemma digit_char_props: "n < 10 \<Longrightarrow> is_digit (digit_char n) \<and> digit_val (digit_char n) = n"
  by (drule less_10_cases) (auto simp: digit_char_def is_digit_def digit_val_def)

lemma nat_of_digits_snoc: "nat_of_digits (ds @ [c]) = 10 * nat_of_digits ds + digit_val c"
  by (simp add: nat_of_digits_def)

lemma str_nat_props: "digits (str_nat n) \<and> nat_of_digits (str_nat n) = n"
proof (induction n rule: str_nat.induct)
  case (1 n)
  show ?case
  proof (cases "n < 10")
    case True
    then show ?thesis
      using digit_char_props [of n] by (simp add: str_nat.simps [of n] digits_def nat_of_digits_def)
  next
    case False
    have m: "n mod 10 < 10" by simp
    from False 1 have ih: "digits (str_nat (n div 10))" "nat_of_digits (str_nat (n div 10)) = n div 10"
      by simp_all
    from False ih digit_char_props [OF m] show ?thesis
      by (simp add: str_nat.simps [of n] digits_def nat_of_digits_snoc)
  qed
qed

lemma digits_plain:
  assumes "digits d"
  shows "\<forall>c \<in> set d. \<not> ws_char c \<and> c \<noteq> CHR '':'' \<and> c \<noteq> CHR '','' \<and> c \<noteq> CHR ''-''
     \<and> c \<noteq> CHR ''_'' \<and> c \<noteq> CHR 0x0A \<and> c \<noteq> CHR 0x0D"
  using assms by (auto simp: digits_def list_all_iff dest: is_digit_cases)

lemma ws_newlines: "ws_char (CHR 0x0A)" "ws_char (CHR 0x0D)"
  by (simp_all add: ws_char_def)

lemma ws_char_punct: "\<not> ws_char CHR '':''" "\<not> ws_char CHR '',''" "\<not> ws_char CHR ''-''"
  by (simp_all add: ws_char_def)

lemma decimal_chars:
  "decimal i \<noteq> [] \<and> (\<forall>c \<in> set (decimal i). \<not> ws_char c \<and> c \<noteq> CHR '':'' \<and> c \<noteq> CHR '','')"
proof (cases "0 \<le> i")
  case True
  have d: "digits (str_nat (nat i))" using str_nat_props by simp
  from True have e: "decimal i = str_nat (nat i)" by (simp add: decimal_def)
  from d have "str_nat (nat i) \<noteq> []" by (simp add: digits_def)
  with digits_plain [OF d] show ?thesis unfolding e by blast
next
  case False
  have d: "digits (str_nat (nat (- i)))" using str_nat_props by simp
  from False have e: "decimal i = CHR ''-'' # str_nat (nat (- i))" by (simp add: decimal_def)
  have "\<forall>c \<in> set (str_nat (nat (- i))). \<not> ws_char c \<and> c \<noteq> CHR '':'' \<and> c \<noteq> CHR '',''"
    using digits_plain [OF d] by blast
  then show ?thesis unfolding e by (simp add: ws_char_punct)
qed

lemma str_nat_short: "n < 10 ^ k \<Longrightarrow> 0 < k \<Longrightarrow> length (str_nat n) \<le> k"
proof (induction n arbitrary: k rule: str_nat.induct)
  case (1 n)
  show ?case
  proof (cases "n < 10")
    case True
    with 1(3) show ?thesis by (simp add: str_nat.simps [of n])
  next
    case False
    obtain j where k: "k = Suc j" using 1(3) by (cases k) auto
    from False 1(2) have "0 < j" by (cases "j = 0") (simp_all add: k)
    moreover from 1(2) have "n < 10 ^ j * 10" by (simp add: k)
    then have "n div 10 < 10 ^ j" by (rule less_mult_imp_div_less)
    ultimately have "length (str_nat (n div 10)) \<le> j" using 1(1) [OF False, of j] by simp
    with False show ?thesis by (simp add: str_nat.simps [of n] k)
  qed
qed

lemma str_nat_long: "10 ^ k \<le> n \<Longrightarrow> k < length (str_nat n)"
proof (induction n arbitrary: k rule: str_nat.induct)
  case (1 n)
  show ?case
  proof (cases k)
    case 0
    then show ?thesis using str_nat_props [of n] by (cases "str_nat n") (simp_all add: digits_def)
  next
    case (Suc j)
    with 1(2) have big: "10 ^ j * 10 \<le> n" by simp
    have "(1::nat) \<le> 10 ^ j" by simp
    with big have small: "\<not> n < 10" by linarith
    from big have "10 ^ j \<le> n div 10" by (simp add: less_eq_div_iff_mult_less_eq)
    with small show ?thesis using 1(1) [of j] by (simp add: str_nat.simps [of n] Suc)
  qed
qed

lemma within_limit_nat: "within_limit i \<longleftrightarrow> nat \<bar>i\<bar> < 10 ^ max_str_digits"
  by (simp add: within_limit_def nat_less_iff)

lemma max_str_digits_pos: "0 < max_str_digits"
  by (simp add: max_str_digits_def)

lemma py_str_within: "within_limit i \<Longrightarrow> py_str i = Inr (decimal i)"
  using str_nat_short [of "nat \<bar>i\<bar>" max_str_digits]
  by (simp add: py_str_def within_limit_nat max_str_digits_pos)

lemma py_str_beyond: "\<not> within_limit i \<Longrightarrow> py_str i = Inl ValueError"
  using str_nat_long [of max_str_digits "nat \<bar>i\<bar>"]
  by (simp add: py_str_def within_limit_nat)

lemma within_limit_small: "\<bar>i\<bar> < 10000 \<Longrightarrow> within_limit i"
proof -
  assume a: "\<bar>i\<bar> < 10000"
  have "(10::int) ^ 4 \<le> 10 ^ max_str_digits"
    by (rule power_increasing) (simp_all add: max_str_digits_def)
  with a show ?thesis by (simp add: within_limit_def)
qed

lemma huge_beyond: "\<not> within_limit huge"
proof -
  have "(0::int) \<le> 10 ^ max_str_digits" by (rule zero_le_power) simp
  then have "\<bar>(10::int) ^ max_str_digits\<bar> = 10 ^ max_str_digits" by (rule abs_of_nonneg)
  moreover have "huge = 10 ^ max_str_digits" by (simp only: huge_def max_str_digits_def)
  ultimately show ?thesis by (simp only: within_limit_def less_irrefl not_False_eq_True)
qed

lemma py_int_decimal:
  assumes "within_limit i"
  shows "py_int (decimal i) = Inr i"
proof (cases "0 \<le> i")
  case True
  with assms have "length (str_nat (nat i)) \<le> max_str_digits"
    using str_nat_short [of "nat i" max_str_digits]
    by (simp add: within_limit_nat max_str_digits_pos)
  with True show ?thesis
    using str_nat_props [of "nat i"] by (simp add: decimal_def py_int_digits digits_def)
next
  case False
  let ?d = "str_nat (nat (- i))"
  have d: "digits ?d" "nat_of_digits ?d = nat (- i)" using str_nat_props by simp_all
  then have ne: "?d \<noteq> []" by (simp add: digits_def)
  from False assms have len: "length ?d \<le> max_str_digits"
    using str_nat_short [of "nat (- i)" max_str_digits]
    by (simp add: within_limit_nat max_str_digits_pos)
  have l: "\<not> ws_char (last ?d)" using digits_plain [OF d(1)] ne by auto
  have s: "strip (CHR ''-'' # ?d) = CHR ''-'' # ?d"
    using l ne by (intro strip_id) (simp_all add: ws_char_def)
  have u: "CHR ''_'' \<notin> set ?d" using digits_plain [OF d(1)] by auto
  have sp: "split_on CHR ''_'' ?d = [?d]" using u by (rule split_on_absent)
  have "py_int (CHR ''-'' # ?d) = Inr (- int (nat_of_digits ?d))"
    using d(1) len
    by (simp only: py_int_def Let_def s list.case if_True split_conv) (simp add: digits_def sp)
  with False d(2) show ?thesis by (simp add: decimal_def)
qed


lemma file_lines_line:
  assumes "\<forall>c \<in> set body. c \<noteq> CHR 0x0A \<and> c \<noteq> CHR 0x0D"
  shows "file_lines cur (body @ CHR 0x0A # rest) = (cur @ body @ [CHR 0x0A]) # file_lines [] rest"
  using assms
proof (induction body arbitrary: cur)
  case Nil
  then show ?case by (cases rest) simp_all
next
  case (Cons b bs)
  obtain d cs where t: "bs @ CHR 0x0A # rest = d # cs" by (cases bs) auto
  have "file_lines cur (b # d # cs) = file_lines (cur @ [b]) (d # cs)"
    using Cons.prems by simp
  also have "\<dots> = ((cur @ [b]) @ bs @ [CHR 0x0A]) # file_lines [] rest"
    using Cons.IH [of "cur @ [b]"] Cons.prems t by simp
  finally show ?case using t by simp
qed

lemma split_on_first: "c \<notin> set k \<Longrightarrow> split_on c (k @ c # rest) = k # split_on c rest"
  by (induction k) auto

lemma split_on_two:
  "c \<notin> set k \<Longrightarrow> c \<notin> set rest \<Longrightarrow> split_on c (k @ c # rest) = [k, rest]"
  by (simp add: split_on_first split_on_absent)

lemma py_in_char: "c \<in> set s \<Longrightarrow> py_in [c] s"
  by (induction s) auto

lemma strip_line:
  assumes "b \<noteq> []" "\<not> ws_char (hd b)" "\<not> ws_char (last b)"
  shows "strip (b @ [CHR 0x0A]) = b"
proof -
  have 1: "dropWhile ws_char (b @ [CHR 0x0A]) = b @ [CHR 0x0A]"
    using assms by (simp add: dropWhile_eq_self_iff)
  have 2: "dropWhile ws_char (rev b) = rev b"
    using assms by (simp add: dropWhile_eq_self_iff hd_rev)
  show ?thesis by (simp add: strip_def 1 2 ws_newlines)
qed

lemma entry_text_props:
  assumes "plain k"
  shows "entry_text (k, x, y) \<noteq> []" "\<not> ws_char (hd (entry_text (k, x, y)))"
    "\<not> ws_char (last (entry_text (k, x, y)))"
    "\<forall>c \<in> set (entry_text (k, x, y)). c \<noteq> CHR 0x0A \<and> c \<noteq> CHR 0x0D"
    "CHR '':'' \<in> set (entry_text (k, x, y))"
proof -
  have px: "decimal x \<noteq> []" "\<forall>c \<in> set (decimal x). \<not> ws_char c"
    and py: "decimal y \<noteq> []" "\<forall>c \<in> set (decimal y). \<not> ws_char c"
    using decimal_chars by auto
  show "entry_text (k, x, y) \<noteq> []" by (simp add: entry_text_def)
  show "\<not> ws_char (hd (entry_text (k, x, y)))"
    using assms by (cases k) (simp_all add: entry_text_def plain_def ws_char_punct)
  show "\<not> ws_char (last (entry_text (k, x, y)))"
    using py by (simp add: entry_text_def)
  have "\<forall>c \<in> set k. \<not> ws_char c" using assms by (simp add: plain_def)
  then have "\<forall>c \<in> set (entry_text (k, x, y)). \<not> ws_char c"
    using px(2) py(2) by (simp add: entry_text_def ws_char_punct ball_Un)
  then show "\<forall>c \<in> set (entry_text (k, x, y)). c \<noteq> CHR 0x0A \<and> c \<noteq> CHR 0x0D"
    using ws_newlines by auto
  show "CHR '':'' \<in> set (entry_text (k, x, y))" by (simp add: entry_text_def)
qed

lemma file_lines_cache_text:
  assumes "\<forall>kv \<in> set coords. plain (fst kv)"
  shows "file_lines [] (cache_text coords) = map entry_line coords"
  using assms
proof (induction coords)
  case Nil
  then show ?case by (simp add: cache_text_def)
next
  case (Cons kv coords)
  obtain k x y where kv: "kv = (k, x, y)" by (cases kv) auto
  with Cons.prems have p: "plain k" by simp
  have "cache_text (kv # coords) = entry_text kv @ CHR 0x0A # cache_text coords"
    by (simp add: cache_text_def entry_line_def)
  then have "file_lines [] (cache_text (kv # coords)) =
      ([] @ entry_text kv @ [CHR 0x0A]) # file_lines [] (cache_text coords)"
    using entry_text_props(4) [OF p, of x y] kv file_lines_line [of "entry_text kv" "[]"] by simp
  with Cons show ?case by (simp add: entry_line_def)
qed

lemma split_entry:
  assumes "plain k"
  shows "split_on CHR '':'' (strip (entry_line (k, x, y))) = [k, decimal x @ '','' @ decimal y]"
    and "split_on CHR '','' (decimal x @ '','' @ decimal y) = [decimal x, decimal y]"
    and "py_in '':'' (entry_line (k, x, y))"
proof -
  have s: "strip (entry_line (k, x, y)) = entry_text (k, x, y)"
    unfolding entry_line_def using entry_text_props(1-3) [OF assms] by (rule strip_line)
  have c: "CHR '':'' \<notin> set (decimal x @ '','' @ decimal y)" "CHR '','' \<notin> set (decimal x)"
    "CHR '','' \<notin> set (decimal y)"
    using decimal_chars [of x] decimal_chars [of y] by auto
  have k: "CHR '':'' \<notin> set k" using assms by (auto simp: plain_def)
  show "split_on CHR '':'' (strip (entry_line (k, x, y))) = [k, decimal x @ '','' @ decimal y]"
    using split_on_two [OF k c(1)] by (simp add: s entry_text_def)
  show "split_on CHR '','' (decimal x @ '','' @ decimal y) = [decimal x, decimal y]"
    using split_on_two [OF c(2) c(3)] by simp
  show "py_in '':'' (entry_line (k, x, y))"
    by (rule py_in_char) (simp add: entry_line_def entry_text_def)
qed

lemma update_fresh: "k \<notin> fst ` set al \<Longrightarrow> AList.update k v al = al @ [(k, v)]"
  by (induction al) auto

lemma load_lines_cache:
  assumes "\<forall>kv \<in> set coords. plain (fst kv)" "distinct (map fst (acc @ coords))"
    and "\<forall>kv \<in> set coords. within_limit (fst (snd kv)) \<and> within_limit (snd (snd kv))"
  shows "load_lines acc (map entry_line coords) = Inr (acc @ coords)"
  using assms
proof (induction coords arbitrary: acc)
  case Nil
  then show ?case by simp
next
  case (Cons kv coords)
  obtain k x y where kv: "kv = (k, x, y)" by (cases kv) auto
  with Cons.prems have p: "plain k" and w: "within_limit x" "within_limit y" by simp_all
  from Cons.prems(2) kv have fresh: "k \<notin> fst ` set acc" by auto
  have d: "distinct (map fst ((acc @ [(k, x, y)]) @ coords))" using Cons.prems(2) kv by simp
  have "load_lines acc (entry_line (k, x, y) # map entry_line coords) =
      load_lines (dict_set k (x, y) acc) (map entry_line coords)"
    using split_entry [OF p, of x y] w by (simp add: py_int_decimal ebind_def)
  also have "\<dots> = Inr ((acc @ [(k, x, y)]) @ coords)"
    using Cons.IH [of "acc @ [(k, x, y)]"] Cons.prems(1,3) d
    by (simp add: dict_set_def update_fresh [OF fresh])
  finally show ?case by (simp add: kv)
qed

lemma load_cache_lines_cache:
  assumes "\<forall>kv \<in> set coords. plain (fst kv)" "distinct (map fst (acc @ coords))"
    and "\<forall>kv \<in> set coords. within_limit (fst (snd kv)) \<and> within_limit (snd (snd kv))"
  shows "load_cache_lines acc (map entry_line coords) = Inr (acc @ coords)"
  using assms
proof (induction coords arbitrary: acc)
  case Nil
  then show ?case by simp
next
  case (Cons kv coords)
  obtain k x y where kv: "kv = (k, x, y)" by (cases kv) auto
  with Cons.prems have p: "plain k" and w: "within_limit x" "within_limit y" by simp_all
  from Cons.prems(2) kv have fresh: "k \<notin> fst ` set acc" by auto
  have d: "distinct (map fst ((acc @ [(k, x, y)]) @ coords))" using Cons.prems(2) kv by simp
  have "load_cache_lines acc (entry_line (k, x, y) # map entry_line coords) =
      load_cache_lines (dict_set k (x, y) acc) (map entry_line coords)"
    using split_entry [OF p, of x y] w by (simp add: py_int_decimal ebind_def)
  also have "\<dots> = Inr ((acc @ [(k, x, y)]) @ coords)"
    using Cons.IH [of "acc @ [(k, x, y)]"] Cons.prems(1,3) d
    by (simp add: dict_set_def update_fresh [OF fresh])
  finally show ?case by (simp add: kv)
qed

lemma cache_line_within:
  "within_limit x \<Longrightarrow> within_limit y \<Longrightarrow> cache_line (k, x, y) = Inr (entry_line (k, x, y))"
  by (simp add: cache_line_def py_str_within ebind_def entry_line_def entry_text_def)

lemma write_entries_within:
  assumes "\<forall>kv \<in> set coords. within_limit (fst (snd kv)) \<and> within_limit (snd (snd kv))"
  shows "write_entries coords written = (written @ cache_text coords, None)"
  using assms
proof (induction coords arbitrary: written)
  case Nil
  then show ?case by (simp add: cache_text_def)
next
  case (Cons kv coords)
  obtain k x y where kv: "kv = (k, x, y)" by (cases kv) auto
  with Cons.prems have "cache_line kv = Inr (entry_line kv)" by (simp add: cache_line_within)
  with Cons show ?case by (simp add: cache_text_def)
qed

lemma key_alphabet_plain: "k \<in> set key_alphabet \<Longrightarrow> plain k"
  by (auto simp: key_alphabet_def dial_chars_def plain_def ws_char_def)

text \<open>
  Claim C9 (as amended). For every coordinate map with unique keys taken from the key
  alphabet and integer coordinates of at most 4300 digits (below \<open>10 ^ 4300\<close> in absolute
  value), saving it (the write succeeding) and then loading the file gives back the same
  keys, in the same order, with the same coordinates, in the polling script and in
  \<open>pythonautomationV2.py\<close> alike.
\<close>

theorem cache_round_trip:
  assumes "distinct (dict_keys coords)" and "set (dict_keys coords) \<subseteq> set key_alphabet"
    and "\<forall>kv \<in> set coords. within_limit (fst (snd kv)) \<and> within_limit (snd (snd kv))"
  shows "load_coords (save_coords True coords file) = Some coords \<and>
         ebind (save_coords_cache True coords file) load_coords_cache = Inr (Some coords)"
proof -
  have p: "\<forall>kv \<in> set coords. plain (fst kv)"
    using assms(2) key_alphabet_plain by (auto simp: dict_keys_def)
  have d: "distinct (map fst ([] @ coords))" using assms(1) by (simp add: dict_keys_def)
  have l: "file_lines [] (cache_text coords) = map entry_line coords"
    using p by (rule file_lines_cache_text)
  have w: "write_entries coords [] = (cache_text coords, None)"
    using write_entries_within [OF assms(3), of "[]"] by simp
  show ?thesis
    using load_lines_cache [OF p d assms(3)] load_cache_lines_cache [OF p d assms(3)]
    by (simp add: load_coords_def save_coords_def load_coords_cache_def save_coords_cache_def
        ebind_def l w)
qed

theorem cache_round_trip_witness:
  "load_coords (save_coords True parsed13 None) = Some parsed13 \<and>
   ebind (save_coords_cache True parsed13 None) load_coords_cache = Inr (Some parsed13)"
proof -
  have "distinct (dict_keys parsed13)" "set (dict_keys parsed13) \<subseteq> set key_alphabet"
    by code_simp+
  moreover have "\<forall>kv \<in> set parsed13. within_limit (fst (snd kv)) \<and> within_limit (snd (snd kv))"
    by (simp add: parsed13_def parsed12_def within_limit_small)
  ultimately show ?thesis by (rule cache_round_trip)
qed

text \<open>
  Claim C9 as stated fails: a coordinate of 4301 digits cannot be formatted. In the polling
  script the file, already opened and emptied, is left without the entry and the exception
  is swallowed, so that loading gives the empty map; in \<open>pythonautomationV2.py\<close> saving
  raises \<open>ValueError\<close>.
\<close>

theorem huge_coordinate_is_not_saved:
  "distinct (dict_keys [(''1'', (huge, 0))])
   \<and> set (dict_keys [(''1'', (huge, 0))]) \<subseteq> set key_alphabet
   \<and> save_coords True [(''1'', (huge, 0))] None = Some []
   \<and> load_coords (save_coords True [(''1'', (huge, 0))] None) = Some []
   \<and> ebind (save_coords_cache True [(''1'', (huge, 0))] None) load_coords_cache = Inl ValueError"
proof -
  have k: "distinct (dict_keys [(''1'', (huge, 0))])"
    "set (dict_keys [(''1'', (huge, 0))]) \<subseteq> set key_alphabet"
    by (simp_all add: dict_keys_def key_alphabet_def dial_chars_def)
  have "py_str huge = Inl ValueError" using huge_beyond by (rule py_str_beyond)
  then have w: "write_entries [(''1'', (huge, 0))] [] = ([], Some ValueError)"
    by (simp add: cache_line_def ebind_def)
  from k w show ?thesis
    by (simp add: save_coords_def save_coords_cache_def load_coords_def ebind_def)
qed


section \<open>Proofs: the cooldown\<close>










section \<open>Proofs: the fallback grid\<close>

lemma round_sig_bounds:
  assumes "0 \<le> n"
  shows "0 \<le> round_sig n \<and> 4503599627370496 * round_sig n \<le> 4503599627370497 * n
     \<and> 4503599627370495 * n \<le> 4503599627370496 * round_sig n"
proof (cases "bitlen n \<le> 53")
  case True
  with assms show ?thesis by (simp add: round_sig_def)
next
  case False
  define s where "s = nat (bitlen n - 53)"
  define P :: int where "P = 2 ^ s"
  define X where "X = (n div P) * P"
  define r where "r = n mod P"
  have Ppos: "0 < P" by (simp add: P_def)
  from False have npos: "0 < n" using bitlen_eq_zero_iff [of n] assms
    by (cases "n = 0") auto
  have "nat (bitlen n - 1) = 52 + s" using False by (simp add: s_def)
  with bitlen_bounds [OF npos] have "2 ^ (52 + s) \<le> n" by simp
  then have big: "4503599627370496 * P \<le> n" by (simp add: P_def power_add)
  have n: "n = X + r" by (simp add: X_def r_def)
  have r: "0 \<le> r" "r < P" using Ppos by (simp_all add: r_def)
  have X: "0 \<le> X" using assms Ppos by (simp add: X_def pos_imp_zdiv_nonneg_iff)
  have R: "round_sig n = X \<or> round_sig n = X + P"
    using False by (auto simp: round_sig_def Let_def s_def [symmetric] P_def [symmetric] X_def algebra_simps)
  from R n r X big Ppos show ?thesis by auto
qed

lemma round_sig_finite:
  assumes "0 \<le> n" "n < 2 ^ 1023"
  shows "\<not> 2 ^ 1024 \<le> round_sig n"
proof -
  have "(2::int) ^ 1024 = 2 * 2 ^ 1023" by simp
  moreover have "(0::int) < 2 ^ 1023" by simp
  ultimately show ?thesis
    using round_sig_bounds [OF assms(1)] assms(2) by linarith
qed

lemma int_mul_facts:
  assumes "0 \<le> n" "n < 2 ^ 1023" "0 \<le> M"
  shows "\<exists>F G. int_mul n (M, k) = Inr (G div 2 ^ k) \<and> 0 \<le> F \<and>
     4503599627370496 * F \<le> 4503599627370497 * n \<and>
     4503599627370495 * n \<le> 4503599627370496 * F \<and> 0 \<le> G \<and>
     4503599627370496 * G \<le> 4503599627370497 * (F * M) \<and>
     4503599627370495 * (F * M) \<le> 4503599627370496 * G"
proof -
  have f: "\<not> 2 ^ 1024 \<le> round_sig n" using assms(1,2) by (rule round_sig_finite)
  have F: "0 \<le> round_sig n" using round_sig_bounds [OF assms(1)] by simp
  then have "0 \<le> round_sig n * M" using assms(3) by simp
  from round_sig_bounds [OF this] round_sig_bounds [OF assms(1)] f show ?thesis
    by (intro exI [of _ "round_sig n"] exI [of _ "round_sig (round_sig n * M)"])
      (simp add: int_mul_def Let_def)
qed

lemma div_pow2_bounds: "(2::int) ^ k * (G div 2 ^ k) \<le> G \<and> G < 2 ^ k * (G div 2 ^ k) + 2 ^ k"
proof -
  define P :: int where "P = 2 ^ k"
  define D where "D = G div P"
  have p: "0 < P" by (simp add: P_def)
  have m: "G mod P = G - P * D" by (simp add: D_def minus_mult_div_eq_mod)
  have "0 \<le> G mod P" "G mod P < P" using p by simp_all
  with m have "P * D \<le> G \<and> G < P * D + P" by simp
  then show ?thesis by (simp add: P_def D_def)
qed

lemma mul_045:
  assumes "0 \<le> n" "n < 2 ^ 1023"
  shows "\<exists>t. int_mul n c_045 = Inr t \<and> 0 \<le> t \<and> 1000 * t \<le> 451 * n \<and> 449 * n < 1000 * t + 1000"
proof -
  from int_mul_facts [OF assms, of 8106479329266893 54] obtain F G where
    fg: "int_mul n c_045 = Inr (G div 2 ^ 54)" "0 \<le> F"
     "4503599627370496 * F \<le> 4503599627370497 * n"
     "4503599627370495 * n \<le> 4503599627370496 * F" "0 \<le> G"
     "4503599627370496 * G \<le> 4503599627370497 * (F * 8106479329266893)"
     "4503599627370495 * (F * 8106479329266893) \<le> 4503599627370496 * G"
    by (auto simp: c_045_def)
  from div_pow2_bounds [of 54 G] have d: "18014398509481984 * (G div 2 ^ 54) \<le> G"
    "G < 18014398509481984 * (G div 2 ^ 54) + 18014398509481984" by simp_all
  have nn: "0 \<le> G div 2 ^ 54" using fg(5) by (simp add: pos_imp_zdiv_nonneg_iff)
  have u: "1000 * (G div 2 ^ 54) \<le> 451 * n" using fg(2-7) d assms(1) by linarith
  have l: "449 * n < 1000 * (G div 2 ^ 54) + 1000" using fg(2-7) d assms(1) by linarith
  from fg(1) nn u l show ?thesis by blast
qed

lemma mul_085:
  assumes "0 \<le> n" "n < 2 ^ 1023"
  shows "\<exists>t. int_mul n c_085 = Inr t \<and> 0 \<le> t \<and> 1000 * t \<le> 851 * n \<and> 849 * n < 1000 * t + 1000"
proof -
  from int_mul_facts [OF assms, of 7656119366529843 53] obtain F G where
    fg: "int_mul n c_085 = Inr (G div 2 ^ 53)" "0 \<le> F"
     "4503599627370496 * F \<le> 4503599627370497 * n"
     "4503599627370495 * n \<le> 4503599627370496 * F" "0 \<le> G"
     "4503599627370496 * G \<le> 4503599627370497 * (F * 7656119366529843)"
     "4503599627370495 * (F * 7656119366529843) \<le> 4503599627370496 * G"
    by (auto simp: c_085_def)
  from div_pow2_bounds [of 53 G] have d: "9007199254740992 * (G div 2 ^ 53) \<le> G"
    "G < 9007199254740992 * (G div 2 ^ 53) + 9007199254740992" by simp_all
  have nn: "0 \<le> G div 2 ^ 53" using fg(5) by (simp add: pos_imp_zdiv_nonneg_iff)
  have u: "1000 * (G div 2 ^ 53) \<le> 851 * n" using fg(2-7) d assms(1) by linarith
  have l: "849 * n < 1000 * (G div 2 ^ 53) + 1000" using fg(2-7) d assms(1) by linarith
  from fg(1) nn u l show ?thesis by blast
qed

lemma mul_012:
  assumes "0 \<le> n" "n < 2 ^ 1023"
  shows "\<exists>t. int_mul n c_012 = Inr t \<and> 0 \<le> t \<and> 1000 * t \<le> 121 * n \<and> 119 * n < 1000 * t + 1000"
proof -
  from int_mul_facts [OF assms, of 1080863910568919 53] obtain F G where
    fg: "int_mul n c_012 = Inr (G div 2 ^ 53)" "0 \<le> F"
     "4503599627370496 * F \<le> 4503599627370497 * n"
     "4503599627370495 * n \<le> 4503599627370496 * F" "0 \<le> G"
     "4503599627370496 * G \<le> 4503599627370497 * (F * 1080863910568919)"
     "4503599627370495 * (F * 1080863910568919) \<le> 4503599627370496 * G"
    by (auto simp: c_012_def)
  from div_pow2_bounds [of 53 G] have d: "9007199254740992 * (G div 2 ^ 53) \<le> G"
    "G < 9007199254740992 * (G div 2 ^ 53) + 9007199254740992" by simp_all
  have nn: "0 \<le> G div 2 ^ 53" using fg(5) by (simp add: pos_imp_zdiv_nonneg_iff)
  have u: "1000 * (G div 2 ^ 53) \<le> 121 * n" using fg(2-7) d assms(1) by linarith
  have l: "119 * n < 1000 * (G div 2 ^ 53) + 1000" using fg(2-7) d assms(1) by linarith
  from fg(1) nn u l show ?thesis by blast
qed

lemma mul_088:
  assumes "0 \<le> n" "n < 2 ^ 1023"
  shows "\<exists>t. int_mul n c_088 = Inr t \<and> 0 \<le> t \<and> 1000 * t \<le> 881 * n \<and> 879 * n < 1000 * t + 1000"
proof -
  from int_mul_facts [OF assms, of 7926335344172073 53] obtain F G where
    fg: "int_mul n c_088 = Inr (G div 2 ^ 53)" "0 \<le> F"
     "4503599627370496 * F \<le> 4503599627370497 * n"
     "4503599627370495 * n \<le> 4503599627370496 * F" "0 \<le> G"
     "4503599627370496 * G \<le> 4503599627370497 * (F * 7926335344172073)"
     "4503599627370495 * (F * 7926335344172073) \<le> 4503599627370496 * G"
    by (auto simp: c_088_def)
  from div_pow2_bounds [of 53 G] have d: "9007199254740992 * (G div 2 ^ 53) \<le> G"
    "G < 9007199254740992 * (G div 2 ^ 53) + 9007199254740992" by simp_all
  have nn: "0 \<le> G div 2 ^ 53" using fg(5) by (simp add: pos_imp_zdiv_nonneg_iff)
  have u: "1000 * (G div 2 ^ 53) \<le> 881 * n" using fg(2-7) d assms(1) by linarith
  have l: "879 * n < 1000 * (G div 2 ^ 53) + 1000" using fg(2-7) d assms(1) by linarith
  from fg(1) nn u l show ?thesis by blast
qed

lemma mul_093:
  assumes "0 \<le> n" "n < 2 ^ 1023"
  shows "\<exists>t. int_mul n c_093 = Inr t \<and> 0 \<le> t \<and> 1000 * t \<le> 931 * n \<and> 929 * n < 1000 * t + 1000"
proof -
  from int_mul_facts [OF assms, of 8376695306909123 53] obtain F G where
    fg: "int_mul n c_093 = Inr (G div 2 ^ 53)" "0 \<le> F"
     "4503599627370496 * F \<le> 4503599627370497 * n"
     "4503599627370495 * n \<le> 4503599627370496 * F" "0 \<le> G"
     "4503599627370496 * G \<le> 4503599627370497 * (F * 8376695306909123)"
     "4503599627370495 * (F * 8376695306909123) \<le> 4503599627370496 * G"
    by (auto simp: c_093_def)
  from div_pow2_bounds [of 53 G] have d: "9007199254740992 * (G div 2 ^ 53) \<le> G"
    "G < 9007199254740992 * (G div 2 ^ 53) + 9007199254740992" by simp_all
  have nn: "0 \<le> G div 2 ^ 53" using fg(5) by (simp add: pos_imp_zdiv_nonneg_iff)
  have u: "1000 * (G div 2 ^ 53) \<le> 931 * n" using fg(2-7) d assms(1) by linarith
  have l: "929 * n < 1000 * (G div 2 ^ 53) + 1000" using fg(2-7) d assms(1) by linarith
  from fg(1) nn u l show ?thesis by blast
qed


lemma match_size_at_digits: "match_size_at s = Some (a, b) \<Longrightarrow> digits a \<and> digits b"
  by (auto simp: match_size_at_def Let_def takeWhile_digits split: list.splits if_splits)

lemma re_search_size_digits: "re_search_size s = Some (a, b) \<Longrightarrow> digits a \<and> digits b"
proof (induction s)
  case Nil
  then show ?case by simp
next
  case (Cons c cs)
  then show ?case
    by (cases "match_size_at (c # cs)") (auto dest: match_size_at_digits)
qed

lemma wm_size_screen:
  "wm_size out =
     (if short_size out then
        Inr (case re_search_size out of None \<Rightarrow> None
             | Some (a, b) \<Rightarrow> Some (int (nat_of_digits a), int (nat_of_digits b)))
      else Inl ValueError)"
proof (cases "re_search_size out")
  case None
  then show ?thesis by (simp add: wm_size_def short_size_def)
next
  case (Some g)
  obtain a b where g: "g = (a, b)" by (cases g)
  with Some re_search_size_digits [of out a b] have "digits a" "digits b" by simp_all
  then have
    "py_int a = (if length a \<le> max_str_digits then Inr (int (nat_of_digits a)) else Inl ValueError)"
    "py_int b = (if length b \<le> max_str_digits then Inr (int (nat_of_digits b)) else Inl ValueError)"
    by (simp_all add: py_int_digits digits_def)
  with Some g show ?thesis by (simp add: wm_size_def short_size_def ebind_def)
qed

lemma screen_of_nonneg: "screen_of out = (w, h) \<Longrightarrow> 0 \<le> w \<and> 0 \<le> h"
  by (auto simp: screen_of_def split: option.splits)

lemma fallback_grid_screen:
  "short_size out \<Longrightarrow> screen_of out = (w, h) \<Longrightarrow> fallback_grid (Inr out) = ([WmSize], grid w h)"
  by (auto simp: fallback_grid_def io_defs wm_size_screen screen_of_def split: option.splits)

lemma fallback_grid_long:
  "\<not> short_size out \<Longrightarrow> fallback_grid (Inr out) = ([WmSize], Inl ValueError)"
  by (simp add: fallback_grid_def io_defs wm_size_screen)

lemma grid_layout:
  assumes "int_mul h c_045 = Inr tp" "int_mul h c_085 = Inr bt"
    "int_mul w c_012 = Inr lf" "int_mul w c_088 = Inr rt" "int_mul h c_093 = Inr cy"
  shows "grid w h = Inr (layout [lf, w div 2, rt]
           (map (\<lambda>i. tp + (bt - tp) * i div 4) [0, 1, 2, 3]) (w div 2, cy))"
  using assms
  by (simp add: grid_def ebind_def Let_def py_index_def grid_keys_def dict_set_def layout_def)

lemma rows_inside:
  assumes "(0::int) \<le> tp" "tp \<le> bt" "bt \<le> h"
  shows "list_all (\<lambda>y. 0 \<le> y \<and> y \<le> h) (map (\<lambda>i. tp + (bt - tp) * i div 4) [0, 1, 2, 3])"
  using assms by simp (intro conjI; linarith)

lemma rows_increasing:
  assumes "(4::int) \<le> bt - tp"
  shows "tp + (bt - tp) * 0 div 4 < tp + (bt - tp) * 1 div 4"
    "tp + (bt - tp) * 1 div 4 < tp + (bt - tp) * 2 div 4"
    "tp + (bt - tp) * 2 div 4 < tp + (bt - tp) * 3 div 4"
    "tp + (bt - tp) * 3 div 4 < bt"
  using assms by simp_all

lemma points_distinct:
  fixes l m r r0 r1 r2 r3 cy :: int
  assumes "l < m" "m < r" "r0 < r1" "r1 < r2" "r2 < r3" "r3 < cy"
  shows "distinct (map snd (layout [l, m, r] [r0, r1, r2, r3] (m, cy)))"
  using assms by (simp add: layout_def)


lemma layout_inside:
  assumes "0 \<le> l \<and> l \<le> w" "0 \<le> m \<and> m \<le> w" "0 \<le> r \<and> r \<le> w"
    "list_all (\<lambda>y. 0 \<le> y \<and> y \<le> h) [r0, r1, r2, r3]" "0 \<le> cy \<and> cy \<le> h"
  shows "inside w h (layout [l, m, r] [r0, r1, r2, r3] (m, cy))"
  using assms by (simp add: inside_def layout_def)

lemma layout_keys:
  "dict_keys (layout [l, m, r] [r0, r1, r2, r3] c) = map (\<lambda>c. [c]) ''123456789*0#'' @ [''CALL'']"
  by (simp add: dict_keys_def layout_def)

lemma ten_rows: "int_mul 10 c_045 = Inr 4" "int_mul 10 c_085 = Inr 8"
  by code_simp+

text \<open>
  Claim C3 (as amended). When the size query raises, \<open>fallback_grid\<close> raises the same
  exception, and when a number of the size in the answer has more than 4300 digits it
  raises \<open>ValueError\<close>. Otherwise, for the screen size \<open>W x H\<close> it reads from the answer
  (the default 720 by 1612 when the answer holds no size), with \<open>W\<close> and \<open>H\<close> below
  \<open>2 ^ 1023\<close> so that they convert to floating point, it returns the map of exactly
  the twelve keys \<open>1\<close> to \<open>9\<close>, \<open>*\<close>, \<open>0\<close>, \<open>#\<close> in row-major order over three
  columns \<open>int(0.12 W)\<close>, \<open>W div 2\<close>, \<open>int(0.88 W)\<close> and four rows between
  \<open>int(0.45 H)\<close> and \<open>int(0.85 H)\<close>, followed by \<open>CALL\<close> at
  \<open>(W div 2, int(0.93 H))\<close>, which is within one of \<open>0.93 H\<close> up to a thousandth of
  \<open>H\<close>; all thirteen points lie in \<open>[0,W] x [0,H]\<close>; and they are pairwise distinct
  whenever \<open>W \<ge> 3\<close> and \<open>H \<ge> 10\<close>.
\<close>

theorem fallback_grid_layout:
  "fallback_grid (Inl e) = ([WmSize], Inl e) \<and>
   (\<not> short_size out \<longrightarrow> fallback_grid (Inr out) = ([WmSize], Inl ValueError)) \<and>
   (short_size out \<and> screen_of out = (w, h) \<and> w < 2 ^ 1023 \<and> h < 2 ^ 1023 \<longrightarrow>
     (\<exists>lf rt tp bt cy g.
        g = layout [lf, w div 2, rt] (map (\<lambda>i. tp + (bt - tp) * i div 4) [0, 1, 2, 3]) (w div 2, cy) \<and>
        fallback_grid (Inr out) = ([WmSize], Inr g) \<and>
        int_mul h c_045 = Inr tp \<and> int_mul h c_085 = Inr bt \<and>
        int_mul w c_012 = Inr lf \<and> int_mul w c_088 = Inr rt \<and> int_mul h c_093 = Inr cy \<and>
        1000 * cy \<le> 931 * h \<and> 929 * h < 1000 * cy + 1000 \<and>
        dict_keys g = map (\<lambda>c. [c]) ''123456789*0#'' @ [''CALL''] \<and>
        inside w h g \<and>
        (3 \<le> w \<and> 10 \<le> h \<longrightarrow> distinct (map snd g))))"
proof (intro conjI impI)
  show "fallback_grid (Inl e) = ([WmSize], Inl e)"
    by (simp add: fallback_grid_def io_defs)
next
  assume "\<not> short_size out"
  then show "fallback_grid (Inr out) = ([WmSize], Inl ValueError)"
    by (rule fallback_grid_long)
next
  assume a: "short_size out \<and> screen_of out = (w, h) \<and> w < 2 ^ 1023 \<and> h < 2 ^ 1023"
  then have nn: "0 \<le> w" "0 \<le> h" using screen_of_nonneg [of out w h] by simp_all
  from a have lt: "w < 2 ^ 1023" "h < 2 ^ 1023" by simp_all
  from mul_045 [OF nn(2) lt(2)] obtain tp where
    tp: "int_mul h c_045 = Inr tp" "0 \<le> tp" "1000 * tp \<le> 451 * h" "449 * h < 1000 * tp + 1000"
    by blast
  from mul_085 [OF nn(2) lt(2)] obtain bt where
    bt: "int_mul h c_085 = Inr bt" "0 \<le> bt" "1000 * bt \<le> 851 * h" "849 * h < 1000 * bt + 1000"
    by blast
  from mul_012 [OF nn(1) lt(1)] obtain lf where
    lf: "int_mul w c_012 = Inr lf" "0 \<le> lf" "1000 * lf \<le> 121 * w" "119 * w < 1000 * lf + 1000"
    by blast
  from mul_088 [OF nn(1) lt(1)] obtain rt where
    rt: "int_mul w c_088 = Inr rt" "0 \<le> rt" "1000 * rt \<le> 881 * w" "879 * w < 1000 * rt + 1000"
    by blast
  from mul_093 [OF nn(2) lt(2)] obtain cy where
    cy: "int_mul h c_093 = Inr cy" "0 \<le> cy" "1000 * cy \<le> 931 * h" "929 * h < 1000 * cy + 1000"
    by blast
  define r0 r1 r2 r3 where "r0 = tp + (bt - tp) * 0 div 4" and "r1 = tp + (bt - tp) * 1 div 4"
    and "r2 = tp + (bt - tp) * 2 div 4" and "r3 = tp + (bt - tp) * 3 div 4"
  note rdefs = r0_def r1_def r2_def r3_def
  have rows: "map (\<lambda>i. tp + (bt - tp) * i div 4) [0, 1, 2, 3] = [r0, r1, r2, r3]"
    by (simp add: rdefs)
  define g where "g = layout [lf, w div 2, rt] [r0, r1, r2, r3] (w div 2, cy)"
  have g1: "g = layout [lf, w div 2, rt] (map (\<lambda>i. tp + (bt - tp) * i div 4) [0, 1, 2, 3]) (w div 2, cy)"
    by (simp only: g_def rows)
  have g2: "fallback_grid (Inr out) = ([WmSize], Inr g)"
    using a fallback_grid_screen [of out w h] grid_layout [OF tp(1) bt(1) lf(1) rt(1) cy(1)]
    by (simp add: g1)
  have order: "tp \<le> bt" "bt \<le> h" using tp(3) bt(3,4) nn(2) by linarith+
  have ri: "list_all (\<lambda>y. 0 \<le> y \<and> y \<le> h) [r0, r1, r2, r3]"
    using rows_inside [OF tp(2) order] by (simp only: rows)
  have cols: "0 \<le> lf \<and> lf \<le> w" "0 \<le> w div 2 \<and> w div 2 \<le> w" "0 \<le> rt \<and> rt \<le> w"
    using lf(2,3) rt(2,3) nn(1) by linarith+
  have cyb: "0 \<le> cy \<and> cy \<le> h" using cy(2,3) nn(2) by linarith
  have g3: "inside w h g"
    unfolding g_def using cols ri cyb by (rule layout_inside)
  have g4: "dict_keys g = map (\<lambda>c. [c]) ''123456789*0#'' @ [''CALL'']"
    unfolding g_def by (rule layout_keys)
  have g5: "distinct (map snd g)" if big: "3 \<le> w \<and> 10 \<le> h"
  proof -
    have c1: "lf < w div 2" "w div 2 < rt" using lf(3) rt(4) big by linarith+
    have d4: "4 \<le> bt - tp"
    proof (cases "h = 10")
      case True
      with tp(1) bt(1) ten_rows show ?thesis by simp
    next
      case False
      with big have "11 \<le> h" by simp
      with tp(3) bt(4) show ?thesis by linarith
    qed
    have inc: "r0 < r1" "r1 < r2" "r2 < r3" "r3 < bt"
      unfolding rdefs using rows_increasing [OF d4] by simp_all
    have "bt \<le> cy" using bt(3) cy(4) big by linarith
    with inc have "r3 < cy" by simp
    with c1 inc show ?thesis unfolding g_def by (intro points_distinct)
  qed
  from g1 g2 tp(1) bt(1) lf(1) rt(1) cy(1) cy(3,4) g3 g4 g5
  show "\<exists>lf rt tp bt cy g.
        g = layout [lf, w div 2, rt] (map (\<lambda>i. tp + (bt - tp) * i div 4) [0, 1, 2, 3]) (w div 2, cy) \<and>
        fallback_grid (Inr out) = ([WmSize], Inr g) \<and>
        int_mul h c_045 = Inr tp \<and> int_mul h c_085 = Inr bt \<and>
        int_mul w c_012 = Inr lf \<and> int_mul w c_088 = Inr rt \<and> int_mul h c_093 = Inr cy \<and>
        1000 * cy \<le> 931 * h \<and> 929 * h < 1000 * cy + 1000 \<and>
        dict_keys g = map (\<lambda>c. [c]) ''123456789*0#'' @ [''CALL''] \<and>
        inside w h g \<and>
        (3 \<le> w \<and> 10 \<le> h \<longrightarrow> distinct (map snd g))"
    by blast
qed


theorem fallback_grid_layout_witness:
  "(\<exists>g. fallback_grid (Inr ''Physical size: 1080x1920'') = ([WmSize], Inr g) \<and>
        dict_keys g = map (\<lambda>c. [c]) ''123456789*0#'' @ [''CALL''] \<and>
        inside 1080 1920 g \<and> distinct (map snd g))
   \<and> (\<exists>g. fallback_grid (Inr ''error: no size'') = ([WmSize], Inr g) \<and>
        inside 720 1612 g \<and> distinct (map snd g))"
proof -
  have r: "re_search_size ''Physical size: 1080x1920'' = Some (''1080'', ''1920'')"
    "re_search_size ''error: no size'' = None"
    by code_simp+
  have s1: "short_size ''Physical size: 1080x1920'' \<and>
      screen_of ''Physical size: 1080x1920'' = (1080, 1920)"
    unfolding short_size_def screen_of_def r
    by (simp add: max_str_digits_def nat_of_digits_def digit_val_def)
  have s2: "short_size ''error: no size'' \<and> screen_of ''error: no size'' = (720, 1612)"
    unfolding short_size_def screen_of_def r by simp
  have b: "(1080::int) < 2 ^ 1023" "(1920::int) < 2 ^ 1023" "(720::int) < 2 ^ 1023"
    "(1612::int) < 2 ^ 1023"
    by simp_all
  have c: "(3::int) \<le> 1080 \<and> (10::int) \<le> 1920" "(3::int) \<le> 720 \<and> (10::int) \<le> 1612"
    by simp_all
  from fallback_grid_layout [of _ "''Physical size: 1080x1920''" 1080 1920] s1 b(1,2) c(1)
  have 1: "\<exists>g. fallback_grid (Inr ''Physical size: 1080x1920'') = ([WmSize], Inr g) \<and>
        dict_keys g = map (\<lambda>c. [c]) ''123456789*0#'' @ [''CALL''] \<and>
        inside 1080 1920 g \<and> distinct (map snd g)"
    by blast
  from fallback_grid_layout [of _ "''error: no size''" 720 1612] s2 b(3,4) c(2)
  have 2: "\<exists>g. fallback_grid (Inr ''error: no size'') = ([WmSize], Inr g) \<and>
        inside 720 1612 g \<and> distinct (map snd g)"
    by blast
  from 1 2 show ?thesis by blast
qed

text \<open>
  Claim C3 as stated fails: on a screen of 2 by 2 the thirteen points are not distinct;
  when the size query raises the generator fails with it; and it fails with
  \<open>ValueError\<close> on an answer whose width has 4301 digits.
\<close>

theorem tiny_screen_points_coincide:
  "fallback_grid (Inr ''Physical size: 2x2'') = ([WmSize], Inr tiny_grid)
   \<and> \<not> distinct (map snd tiny_grid)
   \<and> fallback_grid (Inl CalledProcessError) = ([WmSize], Inl CalledProcessError)
   \<and> fallback_grid (Inr (''Physical size: '' @ long_number @ ''x1920''))
       = ([WmSize], Inl ValueError)"
proof -
  have a: "fallback_grid (Inr ''Physical size: 2x2'') = ([WmSize], Inr tiny_grid)
      \<and> \<not> distinct (map snd tiny_grid)
      \<and> fallback_grid (Inl CalledProcessError) = ([WmSize], Inl CalledProcessError)"
    by code_simp
  have d: "list_all is_digit long_number" "long_number \<noteq> []" "length long_number = 4301"
    by (simp_all add: long_number_def list_all_iff is_digit_def)
  have t: "takeWhile is_digit (long_number @ ''x1920'') = long_number"
    "dropWhile is_digit (long_number @ ''x1920'') = ''x1920''"
    using d(1) by (simp_all add: takeWhile_append2 dropWhile_append2 list_all_iff is_digit_def)
  obtain c r where l: "long_number = c # r" using d(2) by (cases long_number) auto
  have "match_size_at (long_number @ ''x1920'') = Some (long_number, ''1920'')"
    using d(2) by (simp add: match_size_at_def t is_digit_def)
  then have "re_search_size (long_number @ ''x1920'') = Some (long_number, ''1920'')"
    by (simp add: l)
  then have "re_search_size (''Physical size: '' @ long_number @ ''x1920'')
      = Some (long_number, ''1920'')"
    by (simp add: match_size_at_def is_digit_def)
  then have "\<not> short_size (''Physical size: '' @ long_number @ ''x1920'')"
    using d(3) by (simp add: short_size_def max_str_digits_def)
  then have b: "fallback_grid (Inr (''Physical size: '' @ long_number @ ''x1920''))
      = ([WmSize], Inl ValueError)"
    by (rule fallback_grid_long)
  from a b show ?thesis by blast
qed


end
